theory Spec2Isabelle
  imports Main "HOL-Library.Sublist"
begin

section \<open>Strings of the source\<close>

text \<open>
  A JavaScript string is modelled as a \<^typ>\<open>string\<close>: ASCII text stands for itself, and
  the few non-ASCII constants of the source (emoji, bullet, arrow) are the bytes of their
  UTF-8 encoding, as they stand in the source file. The texts that the model is about are
  ASCII texts: what JavaScript does with other characters (the white space beyond ASCII that
  \<^verbatim>\<open>trim\<close> strips, the letters beyond \<open>A\<close> to \<open>Z\<close> that \<^verbatim>\<open>toLowerCase\<close> lowers, a character of
  several bytes that the dot of a pattern takes as one) is not modelled.

  The separators of the source are written with a doubled backslash: \<^verbatim>\<open>'\\n'\<close> in
  \<^verbatim>\<open>markdown.split('\\n')\<close> is the two-character string backslash, \<open>n\<close>, and the regular
  expression \<^verbatim>\<open>/\\s+/\<close> matches a backslash followed by one or more letters \<open>s\<close>.
  The model keeps exactly that: \<open>bs\<close> is the backslash, \<open>NL\<close> the source's \<^verbatim>\<open>'\\n'\<close>
  and \<open>NLNL\<close> its \<^verbatim>\<open>'\\n\\n'\<close>. A real line feed is \<open>LF\<close>.
\<close>

definition bs :: char where
  "bs = CHR 0x5C"

definition LF :: char where
  "LF = CHR 0x0A"

text \<open>The backtick.\<close>

definition bq :: char where
  "bq = CHR 0x60"

definition NL :: string where
  "NL = [bs, CHR ''n'']"

definition NLNL :: string where
  "NLNL = NL @ NL"

text \<open>White space as \<^verbatim>\<open>String.prototype.trim\<close> sees it (on one-byte characters).\<close>

definition isSpace :: "char \<Rightarrow> bool" where
  "isSpace c = (c \<in> {CHR 0x09, CHR 0x0A, CHR 0x0B, CHR 0x0C, CHR 0x0D, CHR 0x20})"

text \<open>Line terminators, which the dot of a regular expression does not match.\<close>

definition isLineTerm :: "char \<Rightarrow> bool" where
  "isLineTerm c = (c = CHR 0x0A \<or> c = CHR 0x0D)"

definition trim :: "string \<Rightarrow> string" where
  "trim s = rev (dropWhile isSpace (rev (dropWhile isSpace s)))"

text \<open>
  \<^verbatim>\<open>s.split(sep)\<close> for a non-empty separator string: the pieces between the successive
  leftmost occurrences of \<open>sep\<close>. The counter is the number of characters of the current
  occurrence still to skip.
\<close>

fun splitAux :: "string \<Rightarrow> nat \<Rightarrow> string \<Rightarrow> string \<Rightarrow> string list" where
  "splitAux sep k cur [] = [rev cur]"
| "splitAux sep (Suc k) cur (c # cs) = splitAux sep k cur cs"
| "splitAux sep 0 cur (c # cs) =
     (if prefix sep (c # cs) then rev cur # splitAux sep (length sep - 1) [] cs
      else splitAux sep 0 (c # cur) cs)"

definition splitStr :: "string \<Rightarrow> string \<Rightarrow> string list" where
  "splitStr sep s = splitAux sep 0 [] s"

text \<open>\<^verbatim>\<open>xs.join(sep)\<close>.\<close>

fun joinStr :: "string \<Rightarrow> string list \<Rightarrow> string" where
  "joinStr sep [] = []"
| "joinStr sep [x] = x"
| "joinStr sep (x # y # ys) = x @ sep @ joinStr sep (y # ys)"

text \<open>The decimal digits of a number, as a template literal prints it.\<close>

fun showNat :: "nat \<Rightarrow> string" where
  "showNat n =
     (if n < 10 then [''0123456789'' ! n]
      else showNat (n div 10) @ [''0123456789'' ! (n mod 10)])"

declare showNat.simps [simp del]

text \<open>
  \<^verbatim>\<open>s.replace(pattern, replacement)\<close> for a pattern with the flag \<open>g\<close>: the text is scanned
  from the left; where the pattern matches, the match is replaced and the scan goes on after
  it; elsewhere one character is copied. The pattern is given by \<open>matchAt\<close>: at a position,
  with the character before it (\<open>None\<close> at the start of the text) and the text from there
  on, it returns the replacement and the length of the match, or \<open>None\<close>. No pattern of the
  source matches the empty string.
\<close>

function replaceAll :: "(char option \<Rightarrow> string \<Rightarrow> (string \<times> nat) option) \<Rightarrow> char option \<Rightarrow> string \<Rightarrow> string" where
  "replaceAll matchAt prev [] = []"
| "replaceAll matchAt prev (c # cs) =
     (case matchAt prev (c # cs) of
        None \<Rightarrow> c # replaceAll matchAt (Some c) cs
      | Some (replacement, n) \<Rightarrow>
          replacement @ replaceAll matchAt (Some ((c # cs) ! (n - 1))) (drop (n - 1) cs))"
  by pat_completeness auto
termination
  by (relation "measure (\<lambda>(matchAt, prev, s). length s)") auto

text \<open>\<^verbatim>\<open>^\<close> and \<^verbatim>\<open>$\<close> under the flag \<open>m\<close>.\<close>

definition atLineStart :: "char option \<Rightarrow> bool" where
  "atLineStart prev = (case prev of None \<Rightarrow> True | Some c \<Rightarrow> isLineTerm c)"

definition atLineEnd :: "string \<Rightarrow> bool" where
  "atLineEnd rest = (case rest of [] \<Rightarrow> True | c # _ \<Rightarrow> isLineTerm c)"

text \<open>How many characters a match took, from the text at its start and the text after it.\<close>

definition consumed :: "string \<Rightarrow> string \<Rightarrow> nat" where
  "consumed s rest = length s - length rest"

section \<open>The chunker\<close>

text \<open>
  \<^verbatim>\<open>text.trim().split(/\\s+/)\<close>: the pieces between the matches of a backslash followed
  by a run of \<open>s\<close>. The empty string gives one empty piece.
\<close>

function splitWords :: "string \<Rightarrow> string list" where
  "splitWords [] = [[]]"
| "splitWords (c # cs) =
     (if c = bs \<and> (case cs of [] \<Rightarrow> False | d # _ \<Rightarrow> d = CHR ''s'')
      then [] # splitWords (dropWhile (\<lambda>d. d = CHR ''s'') cs)
      else (case splitWords cs of [] \<Rightarrow> [[c]] | p # ps \<Rightarrow> (c # p) # ps))"
  by pat_completeness auto
termination
  by (relation "measure length") (auto simp: length_dropWhile_le less_Suc_eq_le)

definition countWords :: "string \<Rightarrow> int" where
  "countWords text = int (length (splitWords (trim text)))"

text \<open>
  The options record: every field is optional, and \<^verbatim>\<open>{ ...defaultOptions, ...options }\<close>
  takes a field of \<open>options\<close> where it is given and the default otherwise.
\<close>

record OptimizationOptions =
  chunkSize :: "int option"
  preserveReferences :: "bool option"
  addContextHeadersOpt :: "bool option"
  simplifyStructureOpt :: "bool option"
  removeRedundancyOpt :: "bool option"

definition defaultOptions :: OptimizationOptions where
  "defaultOptions =
     \<lparr>chunkSize = Some 4000, preserveReferences = Some True, addContextHeadersOpt = Some True,
      simplifyStructureOpt = Some True, removeRedundancyOpt = Some True\<rparr>"

definition orElse :: "'a option \<Rightarrow> 'a option \<Rightarrow> 'a option" where
  "orElse given dflt = (case given of None \<Rightarrow> dflt | Some v \<Rightarrow> Some v)"

definition mergeOptions :: "OptimizationOptions \<Rightarrow> OptimizationOptions \<Rightarrow> OptimizationOptions" where
  "mergeOptions dflt options =
     \<lparr>chunkSize = orElse (chunkSize options) (chunkSize dflt),
      preserveReferences = orElse (preserveReferences options) (preserveReferences dflt),
      addContextHeadersOpt = orElse (addContextHeadersOpt options) (addContextHeadersOpt dflt),
      simplifyStructureOpt = orElse (simplifyStructureOpt options) (simplifyStructureOpt dflt),
      removeRedundancyOpt = orElse (removeRedundancyOpt options) (removeRedundancyOpt dflt)\<rparr>"

text \<open>The chunk size in force: \<^verbatim>\<open>opts.chunkSize!\<close> after the merge with the defaults.\<close>

definition chunkSizeOf :: "OptimizationOptions \<Rightarrow> int" where
  "chunkSizeOf options = (case chunkSize (mergeOptions defaultOptions options) of
                            Some n \<Rightarrow> n | None \<Rightarrow> 4000)"

text \<open>Sections of a Markdown text and chunks; a metadata value is a string or a list of strings.\<close>

datatype mval = MStr string | MList "string list"

record Section =
  sec_title :: string
  sec_content :: string
  sec_level :: nat

record ContentChunk =
  chunk_id :: string
  chunk_title :: string
  chunk_content :: string
  chunk_metadata :: "(string \<times> mval) list"
  chunk_wordCount :: int
  chunk_context :: "string option"

text \<open>
  \<^verbatim>\<open>line.match(/^(#{1,6})\\s+(.+)/)\<close>: one to six \<open>#\<close> at the start of the line, a
  backslash, a run of \<open>s\<close>, then at least one character up to the next line terminator.
  The result is the pair of the two groups. When nothing follows the run of \<open>s\<close> on the
  line, the run gives its last \<open>s\<close> back to the second group.
\<close>

definition matchHeader :: "string \<Rightarrow> (string \<times> string) option" where
  "matchHeader line =
     (let hashes = takeWhile (\<lambda>c. c = CHR ''#'') line;
          rest = dropWhile (\<lambda>c. c = CHR ''#'') line
      in if length hashes < 1 \<or> 6 < length hashes then None
         else (case rest of
                 [] \<Rightarrow> None
               | c # r1 \<Rightarrow>
                   if c \<noteq> bs then None
                   else (let ss = takeWhile (\<lambda>c. c = CHR ''s'') r1;
                             r2 = dropWhile (\<lambda>c. c = CHR ''s'') r1;
                             t = takeWhile (\<lambda>c. \<not> isLineTerm c) r2
                         in if ss = [] then None
                            else if t \<noteq> [] then Some (hashes, t)
                            else if 2 \<le> length ss then Some (hashes, ''s'')
                            else None)))"

text \<open>\<^verbatim>\<open>splitByHeaders\<close>: the loop over the lines, with \<open>sections\<close> and \<open>currentSection\<close>.\<close>

fun splitByHeadersLoop :: "string list \<Rightarrow> Section list \<Rightarrow> Section option \<Rightarrow> Section list" where
  "splitByHeadersLoop [] sections currentSection =
     (case currentSection of None \<Rightarrow> sections | Some s \<Rightarrow> sections @ [s])"
| "splitByHeadersLoop (line # ls) sections currentSection =
     (case matchHeader line of
        Some (h, t) \<Rightarrow>
          splitByHeadersLoop ls
            (case currentSection of None \<Rightarrow> sections | Some s \<Rightarrow> sections @ [s])
            (Some \<lparr>sec_title = t, sec_content = line, sec_level = length h\<rparr>)
      | None \<Rightarrow>
          (case currentSection of
             Some s \<Rightarrow>
               splitByHeadersLoop ls sections (Some (s\<lparr>sec_content := sec_content s @ NL @ line\<rparr>))
           | None \<Rightarrow>
               (case sections of
                  [] \<Rightarrow>
                    splitByHeadersLoop ls
                      [\<lparr>sec_title = ''Introduction'', sec_content = line, sec_level = 1\<rparr>] None
                | s0 # ss \<Rightarrow>
                    splitByHeadersLoop ls
                      (s0\<lparr>sec_content := sec_content s0 @ NL @ line\<rparr> # ss) None)))"

definition splitByHeaders :: "string \<Rightarrow> Section list" where
  "splitByHeaders markdown = splitByHeadersLoop (splitStr NL markdown) [] None"

text \<open>
  \<^verbatim>\<open>splitLargeSection\<close>: the loop over the paragraphs with \<open>chunks\<close>, \<open>currentChunk\<close> and
  \<open>chunkIndex\<close>, then the last chunk.
\<close>

definition partChunk :: "string \<Rightarrow> string \<Rightarrow> nat \<Rightarrow> ContentChunk" where
  "partChunk title currentChunk chunkIndex =
     \<lparr>chunk_id = title @ ''-'' @ showNat chunkIndex,
      chunk_title = title @ '' (Part '' @ showNat chunkIndex @ '')'',
      chunk_content = trim currentChunk,
      chunk_metadata = [(''partOf'', MStr title)],
      chunk_wordCount = countWords currentChunk,
      chunk_context = None\<rparr>"

fun splitLargeLoop ::
  "string \<Rightarrow> int \<Rightarrow> string list \<Rightarrow> ContentChunk list \<Rightarrow> string \<Rightarrow> nat
     \<Rightarrow> ContentChunk list \<times> string \<times> nat" where
  "splitLargeLoop title maxSize [] chunks currentChunk chunkIndex =
     (chunks, currentChunk, chunkIndex)"
| "splitLargeLoop title maxSize (paragraph # ps) chunks currentChunk chunkIndex =
     (if countWords currentChunk + countWords paragraph \<le> maxSize \<and> currentChunk \<noteq> []
      then splitLargeLoop title maxSize ps chunks (currentChunk @ NLNL @ paragraph) chunkIndex
      else if trim currentChunk \<noteq> []
      then splitLargeLoop title maxSize ps
             (chunks @ [partChunk title currentChunk (chunkIndex + 1)]) paragraph (chunkIndex + 1)
      else splitLargeLoop title maxSize ps chunks paragraph chunkIndex)"

definition splitLargeSection :: "Section \<Rightarrow> int \<Rightarrow> ContentChunk list" where
  "splitLargeSection section maxSize =
     (case splitLargeLoop (sec_title section) maxSize (splitStr NLNL (sec_content section)) [] [] 0 of
        (chunks, currentChunk, chunkIndex) \<Rightarrow>
          if trim currentChunk \<noteq> []
          then chunks @
            [(partChunk (sec_title section) currentChunk (chunkIndex + 1))
               \<lparr>chunk_title := (if chunkIndex + 1 > 1
                                 then sec_title section @ '' (Part '' @ showNat (chunkIndex + 1) @ '')''
                                 else sec_title section)\<rparr>]
          else chunks)"

text \<open>\<^verbatim>\<open>addChunkContext\<close>: the navigation text of the chunk at each index.\<close>

definition chunkContextAt :: "ContentChunk list \<Rightarrow> nat \<Rightarrow> string" where
  "chunkContextAt chunks index =
     (if length chunks > 1
      then ''Document part '' @ showNat (index + 1) @ '' of '' @ showNat (length chunks)
           @ (if index > 0
              then '' | Previous: '' @ [CHR 0x22] @ chunk_title (chunks ! (index - 1)) @ [CHR 0x22]
              else [])
           @ (if index + 1 < length chunks
              then '' | Next: '' @ [CHR 0x22] @ chunk_title (chunks ! (index + 1)) @ [CHR 0x22]
              else [])
      else [])"

definition addChunkContext :: "ContentChunk list \<Rightarrow> ContentChunk list" where
  "addChunkContext chunks =
     map (\<lambda>index. (chunks ! index)\<lparr>chunk_context := Some (chunkContextAt chunks index)\<rparr>)
       [0..<length chunks]"

text \<open>
  \<^verbatim>\<open>chunkContent\<close>: the loop over the sections with \<open>chunks\<close>, \<open>currentChunk\<close> and
  \<open>chunkIndex\<close>; the chunks of an oversized section are renumbered and given the metadata
  \<open>parentSection\<close> and \<open>chunkType\<close>.
\<close>

definition pushSection :: "string \<Rightarrow> (string \<times> mval) list \<Rightarrow> (string \<times> mval) list" where
  "pushSection t md =
     (case map_of md ''sections'' of
        Some (MList xs) \<Rightarrow> map (\<lambda>(k, v). if k = ''sections'' then (k, MList (xs @ [t])) else (k, v)) md
      | _ \<Rightarrow> md @ [(''sections'', MList [t])])"

fun renumber :: "string \<Rightarrow> nat \<Rightarrow> ContentChunk list \<Rightarrow> ContentChunk list" where
  "renumber parent chunkIndex [] = []"
| "renumber parent chunkIndex (subChunk # rest) =
     \<lparr>chunk_id = ''chunk-'' @ showNat (chunkIndex + 1),
      chunk_title = chunk_title subChunk,
      chunk_content = chunk_content subChunk,
      chunk_metadata = [(''parentSection'', MStr parent), (''chunkType'', MStr ''subsection'')],
      chunk_wordCount = chunk_wordCount subChunk,
      chunk_context = None\<rparr> # renumber parent (chunkIndex + 1) rest"

fun chunkLoop ::
  "int \<Rightarrow> Section list \<Rightarrow> ContentChunk list \<Rightarrow> ContentChunk option \<Rightarrow> nat
     \<Rightarrow> ContentChunk list \<times> ContentChunk option" where
  "chunkLoop maxSize [] chunks currentChunk chunkIndex = (chunks, currentChunk)"
| "chunkLoop maxSize (section # rest) chunks currentChunk chunkIndex =
     (let sectionWordCount = countWords (sec_content section);
          fits = (case currentChunk of
                    None \<Rightarrow> False
                  | Some c \<Rightarrow> chunk_wordCount c + sectionWordCount \<le> maxSize)
      in if fits
         then chunkLoop maxSize rest chunks
                (map_option (\<lambda>c. c\<lparr>chunk_content := chunk_content c @ NLNL @ sec_content section,
                                      chunk_wordCount := chunk_wordCount c + sectionWordCount,
                                      chunk_metadata := pushSection (sec_title section) (chunk_metadata c)\<rparr>)
                   currentChunk)
                chunkIndex
         else (let chunks' = (case currentChunk of None \<Rightarrow> chunks | Some c \<Rightarrow> chunks @ [c])
               in if sectionWordCount > maxSize
                  then (let subChunks = splitLargeSection section maxSize
                        in chunkLoop maxSize rest
                             (chunks' @ renumber (sec_title section) chunkIndex subChunks)
                             None (chunkIndex + length subChunks))
                  else chunkLoop maxSize rest chunks'
                         (Some \<lparr>chunk_id = ''chunk-'' @ showNat (chunkIndex + 1),
                                chunk_title = (if sec_title section \<noteq> [] then sec_title section
                                               else ''Chunk '' @ showNat (chunkIndex + 1)),
                                chunk_content = sec_content section,
                                chunk_metadata = [(''sections'', MList [sec_title section]),
                                                  (''chunkType'', MStr ''section'')],
                                chunk_wordCount = sectionWordCount,
                                chunk_context = None\<rparr>)
                         (chunkIndex + 1)))"

definition chunkContent :: "string \<Rightarrow> OptimizationOptions \<Rightarrow> ContentChunk list" where
  "chunkContent markdown options =
     (case chunkLoop (chunkSizeOf options) (splitByHeaders markdown) [] None 0 of
        (chunks, currentChunk) \<Rightarrow>
          addChunkContext (case currentChunk of None \<Rightarrow> chunks | Some c \<Rightarrow> chunks @ [c]))"

section \<open>Patterns shared by the optimizer and the converter\<close>

text \<open>\<^verbatim>\<open>[a-zA-Z-]\<close>, the characters of a directive or option name.\<close>

definition isLetter :: "char \<Rightarrow> bool" where
  "isLetter c = (let n = (of_char c :: nat) in (97 \<le> n \<and> n \<le> 122) \<or> (65 \<le> n \<and> n \<le> 90))"

definition isNameChar :: "char \<Rightarrow> bool" where
  "isNameChar c = (isLetter c \<or> c = CHR ''-'')"

text \<open>\<^verbatim>\<open>toUpperCase\<close> and \<^verbatim>\<open>toLowerCase\<close>, on the ASCII letters.\<close>

definition toUpper :: "char \<Rightarrow> char" where
  "toUpper c = (let n = (of_char c :: nat) in if 97 \<le> n \<and> n \<le> 122 then char_of (n - 32) else c)"

definition toLower :: "char \<Rightarrow> char" where
  "toLower c = (let n = (of_char c :: nat) in if 65 \<le> n \<and> n \<le> 90 then char_of (n + 32) else c)"

text \<open>
  The tail of several patterns, \<^verbatim>\<open>\\s+(.+)\<close> up to the end of the line: a backslash, a run
  of \<open>s\<close>, and a group of at least one character that is not a line terminator. The result
  is the group and what is left after it. When nothing follows the run of \<open>s\<close> on the line
  and the run has two or more \<open>s\<close>, the run gives its last \<open>s\<close> back to the group.
\<close>

definition afterBsS :: "string \<Rightarrow> (string \<times> string) option" where
  "afterBsS r =
     (case r of
        [] \<Rightarrow> None
      | c # r1 \<Rightarrow>
          if c \<noteq> bs then None
          else (let ss = takeWhile (\<lambda>c. c = CHR ''s'') r1;
                    r2 = dropWhile (\<lambda>c. c = CHR ''s'') r1;
                    t = takeWhile (\<lambda>c. \<not> isLineTerm c) r2
                in if ss = [] then None
                   else if t \<noteq> [] then Some (t, dropWhile (\<lambda>c. \<not> isLineTerm c) r2)
                   else if 2 \<le> length ss then Some (''s'', r2)
                   else None))"

text \<open>
  \<^verbatim>\<open>/\\*\\*([^*]+)\\*\\*/g\<close> and \<^verbatim>\<open>/\\*([^*]+)\\*/g\<close>. With the doubled backslash each
  \<^verbatim>\<open>\\*\<close> is "any number of backslashes", so the pattern matches every maximal run of
  characters other than \<open>*\<close>: the leading backslashes of the run go to the first
  \<^verbatim>\<open>\\*\<close>, the group takes the rest of the run (a run of backslashes only leaves its last
  one to the group), and the match is replaced by the group between the markers.
\<close>

definition emphGroup :: "string \<Rightarrow> string" where
  "emphGroup run = (let g = dropWhile (\<lambda>c. c = bs) run in if g = [] then [bs] else g)"

definition emphAt :: "string \<Rightarrow> char option \<Rightarrow> string \<Rightarrow> (string \<times> nat) option" where
  "emphAt marker prev s =
     (let run = takeWhile (\<lambda>c. c \<noteq> CHR ''*'') s
      in if run = [] then None else Some (marker @ emphGroup run @ marker, length run))"

text \<open>\<^verbatim>\<open>/\\n{3,}/g\<close>: a backslash and three or more \<open>n\<close>, replaced by \<^verbatim>\<open>'\\n\\n'\<close>.\<close>

definition manyNlAt :: "char option \<Rightarrow> string \<Rightarrow> (string \<times> nat) option" where
  "manyNlAt prev s =
     (case s of
        [] \<Rightarrow> None
      | c # r \<Rightarrow>
          (let ns = takeWhile (\<lambda>c. c = CHR ''n'') r
           in if c = bs \<and> 3 \<le> length ns then Some (NLNL, 1 + length ns) else None))"

text \<open>
  A header line with at most \<open>k\<close> marks, \<^verbatim>\<open>/^(#{1,k}\\s+.+)$/gm\<close>: the replacement is built
  from the line by \<open>f\<close>.
\<close>

definition headerLineAt :: "nat \<Rightarrow> (string \<Rightarrow> string) \<Rightarrow> char option \<Rightarrow> string \<Rightarrow> (string \<times> nat) option" where
  "headerLineAt k f prev s =
     (let h = length (takeWhile (\<lambda>c. c = CHR ''#'') s)
      in if atLineStart prev \<and> 1 \<le> h \<and> h \<le> k
         then (case afterBsS (drop h s) of
                 None \<Rightarrow> None
               | Some (g, rest) \<Rightarrow> Some (f (take (consumed s rest) s), consumed s rest))
         else None)"

section \<open>The optimizer\<close>

subsection \<open>\<open>simplifyStructure\<close>\<close>

text \<open>
  \<^verbatim>\<open>/^#{5,}\\s+/gm\<close>, replaced by \<^verbatim>\<open>'#### '\<close>: at the start of a line five or more
  \<open>#\<close>, a backslash and a run of \<open>s\<close>.
\<close>

definition clampAt :: "char option \<Rightarrow> string \<Rightarrow> (string \<times> nat) option" where
  "clampAt prev s =
     (let h = length (takeWhile (\<lambda>c. c = CHR ''#'') s)
      in if atLineStart prev \<and> 5 \<le> h
         then (case drop h s of
                 [] \<Rightarrow> None
               | c # r \<Rightarrow>
                   (let ss = takeWhile (\<lambda>c. c = CHR ''s'') r
                    in if c = bs \<and> ss \<noteq> [] then Some (''#### '', h + 1 + length ss) else None))
         else None)"

text \<open>
  \<^verbatim>\<open>/^\s*[a-zA-Z]\)\s+/gm\<close> and \<^verbatim>\<open>/^\s*[ivx]+\)\s+/gm\<close>, replaced by \<^verbatim>\<open>'- '\<close>. These two
  are written with single backslashes: \<^verbatim>\<open>\s\<close> is white space, line terminators included.
\<close>

definition listMarkerAt :: "(char \<Rightarrow> bool) \<Rightarrow> bool \<Rightarrow> char option \<Rightarrow> string \<Rightarrow> (string \<times> nat) option" where
  "listMarkerAt isMark many prev s =
     (let w = takeWhile isSpace s;
          r = dropWhile isSpace s;
          mark = (if many then takeWhile isMark r else take 1 (takeWhile isMark r))
      in if atLineStart prev \<and> mark \<noteq> []
         then (case drop (length mark) r of
                 [] \<Rightarrow> None
               | c # r2 \<Rightarrow>
                   (let w2 = takeWhile isSpace r2
                    in if c = CHR '')'' \<and> w2 \<noteq> []
                       then Some (''- '', length w + length mark + 1 + length w2) else None))
         else None)"

text \<open>
  \<open>simplifyTables\<close>, with the pattern \<^verbatim>\<open>/\\|.*\\|\\n\\|.*\\|\\n(?:\\|.*\\|\\n)*/g\<close>. With the
  doubled backslash every \<^verbatim>\<open>|\<close> is an alternation, and the alternatives are: a backslash;
  any characters of the line up to a backslash; and three more that start with a backslash
  or repeat the second. So at a backslash the match is that backslash alone, and elsewhere
  it runs to the last backslash of the line, if there is one. The callback splits the
  trimmed match at \<^verbatim>\<open>'\\n'\<close> into rows and the rows at \<open>|\<close> into cells.
\<close>

definition bullet :: string where
  "bullet = [CHR 0xE2, CHR 0x80, CHR 0xA2]"

definition cellsOf :: "string \<Rightarrow> string list" where
  "cellsOf row = filter (\<lambda>c. c \<noteq> []) (map trim (splitStr ''|'' row))"

fun tableRows :: "nat \<Rightarrow> string list \<Rightarrow> string \<Rightarrow> string" where
  "tableRows n [] result = result"
| "tableRows n (row # rest) result =
     tableRows n rest
       (if length (cellsOf row) = n
        then result @ bullet @ '' '' @ joinStr ('' '' @ bullet @ '' '') (cellsOf row) @ NL
        else result)"

definition tableCallback :: "string \<Rightarrow> string" where
  "tableCallback match =
     (let rows = splitStr NL (trim match);
          headers = cellsOf (hd rows)
      in if length rows < 3 then match
         else tableRows (length headers) (drop 2 rows)
                (''**'' @ joinStr '' | '' headers @ ''**'' @ NLNL))"

definition tableAt :: "char option \<Rightarrow> string \<Rightarrow> (string \<times> nat) option" where
  "tableAt prev s =
     (case s of
        [] \<Rightarrow> None
      | c # r \<Rightarrow>
          if c = bs then Some (tableCallback [bs], 1)
          else (let line = takeWhile (\<lambda>c. \<not> isLineTerm c) s;
                    match = rev (dropWhile (\<lambda>c. c \<noteq> bs) (rev line))
                in if match = [] then None else Some (tableCallback match, length match)))"

definition simplifyTables :: "string \<Rightarrow> string" where
  "simplifyTables markdown = replaceAll tableAt None markdown"

definition isRoman :: "char \<Rightarrow> bool" where
  "isRoman c = (c = CHR ''i'' \<or> c = CHR ''v'' \<or> c = CHR ''x'')"

definition simplifyStructure :: "string \<Rightarrow> string" where
  "simplifyStructure markdown =
     (let simplified = markdown;
          simplified = replaceAll clampAt None simplified;
          simplified = replaceAll (listMarkerAt isLetter False) None simplified;
          simplified = replaceAll (listMarkerAt isRoman True) None simplified;
          simplified = simplifyTables simplified
      in simplified)"

subsection \<open>\<open>removeRedundancy\<close>\<close>

text \<open>\<^verbatim>\<open>/\[([^\]]+)\]\(\1\)/g\<close>, replaced by the group: a link whose text is its target.\<close>

definition selfLinkAt :: "char option \<Rightarrow> string \<Rightarrow> (string \<times> nat) option" where
  "selfLinkAt prev s =
     (case s of
        [] \<Rightarrow> None
      | c # r \<Rightarrow>
          (let x = takeWhile (\<lambda>c. c \<noteq> CHR '']'') r
           in if c = CHR ''['' \<and> x \<noteq> [] \<and> prefix ('']('' @ x @ '')'') (drop (length x) r)
              then Some (x, 2 * length x + 4) else None))"

text \<open>
  \<^verbatim>\<open>/^#{1,6}\\s+.*\\n\\n(?=#{1,6})/gm\<close>, replaced by nothing: a header line up to the last
  \<^verbatim>\<open>\n\n\<close> of the line that is followed by a \<open>#\<close>. \<open>lastBreak\<close> finds that place in the
  text after the backslash and the first \<open>s\<close>.
\<close>

fun lastBreak :: "string \<Rightarrow> nat \<Rightarrow> nat option \<Rightarrow> nat option" where
  "lastBreak [] i best = best"
| "lastBreak (c # cs) i best =
     lastBreak cs (i + 1) (if prefix (NLNL @ ''#'') (c # cs) then Some i else best)"

definition emptySectionAt :: "char option \<Rightarrow> string \<Rightarrow> (string \<times> nat) option" where
  "emptySectionAt prev s =
     (let h = length (takeWhile (\<lambda>c. c = CHR ''#'') s);
          line = takeWhile (\<lambda>c. \<not> isLineTerm c) (drop h s)
      in if atLineStart prev \<and> 1 \<le> h \<and> h \<le> 6 \<and> prefix ([bs] @ ''s'') line
         then (case lastBreak (drop 2 line) 0 None of
                 None \<Rightarrow> None
               | Some i \<Rightarrow> Some ([], h + 2 + i + 4))
         else None)"

definition removeRedundancy :: "string \<Rightarrow> string" where
  "removeRedundancy markdown =
     (let cleaned = markdown;
          cleaned = replaceAll manyNlAt None cleaned;
          cleaned = replaceAll (emphAt ''**'') None cleaned;
          cleaned = replaceAll selfLinkAt None cleaned;
          cleaned = replaceAll emptySectionAt None cleaned
      in cleaned)"

subsection \<open>\<open>addContextHeaders\<close>\<close>

text \<open>
  The context is an array that may have holes: an element is \<open>None\<close> where nothing was
  stored. \<^verbatim>\<open>currentContext.slice(0, level - 1)\<close> followed by the store at \<open>level - 1\<close>
  leaves an array of length \<open>level\<close>; \<open>join\<close> prints a hole as the empty string.
\<close>

definition arrow :: string where
  "arrow = [CHR 0xE2, CHR 0x86, CHR 0x92]"

definition storeAt :: "nat \<Rightarrow> string \<Rightarrow> string option list \<Rightarrow> string option list" where
  "storeAt i v xs = take i xs @ replicate (i - length xs) None @ [Some v] @ drop (i + 1) xs"

fun addContextLoop :: "string list \<Rightarrow> string list \<Rightarrow> string option list \<Rightarrow> string list" where
  "addContextLoop [] result currentContext = result"
| "addContextLoop (line # rest) result currentContext =
     (case matchHeader line of
        None \<Rightarrow> addContextLoop rest (result @ [line]) currentContext
      | Some (hashes, title) \<Rightarrow>
          (let level = length hashes;
               currentContext = storeAt (level - 1) title (take (level - 1) currentContext)
           in if level > 2 \<and> length currentContext > 1
              then (let context = joinStr ('' '' @ arrow @ '' '')
                                    (map (\<lambda>x. case x of None \<Rightarrow> [] | Some t \<Rightarrow> t) (butlast currentContext))
                    in addContextLoop rest
                         (result @ [hashes @ '' '' @ title, [], ''*Context: '' @ context @ ''*'', []])
                         currentContext)
              else addContextLoop rest (result @ [line]) currentContext))"

definition addContextHeaders :: "string \<Rightarrow> string" where
  "addContextHeaders markdown = joinStr NL (addContextLoop (splitStr NL markdown) [] [])"

subsection \<open>\<open>optimizeFormatting\<close>\<close>

text \<open>
  \<^verbatim>\<open>/^```\\n(.*?)^```/gms\<close> and its callback: a fence at the start of a line followed by
  \<^verbatim>\<open>\n\<close>, then the shortest text up to a fence at the start of a line. \<open>findFence\<close> looks
  for that fence, with the character before the position and the position itself.
\<close>

fun findFence :: "char \<Rightarrow> string \<Rightarrow> nat \<Rightarrow> nat option" where
  "findFence prev [] i = None"
| "findFence prev (c # cs) i =
     (if isLineTerm prev \<and> prefix [bq, bq, bq] (c # cs) then Some i else findFence c cs (i + 1))"

definition fenceCallback :: "string \<Rightarrow> string \<Rightarrow> string" where
  "fenceCallback match code =
     (let firstLine = hd (splitStr NL code)
      in if CHR ''#'' \<in> set firstLine \<or> sublist ''//'' firstLine
         then (let lang = (if CHR ''#'' \<in> set firstLine then ''bash'' else ''javascript'')
               in [bq, bq, bq] @ lang @ NL @ code @ [bq, bq, bq])
         else match)"

definition fenceAt :: "char option \<Rightarrow> string \<Rightarrow> (string \<times> nat) option" where
  "fenceAt prev s =
     (if atLineStart prev \<and> prefix ([bq, bq, bq] @ NL) s
      then (case findFence CHR ''n'' (drop 5 s) 5 of
              None \<Rightarrow> None
            | Some p \<Rightarrow> Some (fenceCallback (take (p + 3) s) (take (p - 5) (drop 5 s)), p + 3))
      else None)"

text \<open>\<^verbatim>\<open>/^-\\s+/gm\<close>, replaced by a bullet and a space.\<close>

definition dashAt :: "char option \<Rightarrow> string \<Rightarrow> (string \<times> nat) option" where
  "dashAt prev s =
     (case s of
        d # b # r \<Rightarrow>
          (let ss = takeWhile (\<lambda>c. c = CHR ''s'') r
           in if atLineStart prev \<and> d = CHR ''-'' \<and> b = bs \<and> ss \<noteq> []
              then Some (bullet @ '' '', 2 + length ss) else None)
      | _ \<Rightarrow> None)"

text \<open>\<^verbatim>\<open>/^\\n+---\\n+/\<close>, without flags: only at the start of the text, removed.\<close>

definition stripLeadingRule :: "string \<Rightarrow> string" where
  "stripLeadingRule s =
     (case s of
        [] \<Rightarrow> s
      | c # r \<Rightarrow>
          (let ns = takeWhile (\<lambda>c. c = CHR ''n'') r;
               r1 = dropWhile (\<lambda>c. c = CHR ''n'') r
           in if c = bs \<and> ns \<noteq> [] \<and> prefix (''---'' @ [bs] @ ''n'') r1
              then dropWhile (\<lambda>c. c = CHR ''n'') (drop 4 r1)
              else s))"

definition optimizeFormatting :: "string \<Rightarrow> string" where
  "optimizeFormatting markdown =
     (let optimized = markdown;
          optimized = replaceAll fenceAt None optimized;
          optimized = replaceAll dashAt None optimized;
          optimized = replaceAll (headerLineAt 2 (\<lambda>line. NL @ ''---'' @ NLNL @ line)) None optimized;
          optimized = stripLeadingRule optimized
      in optimized)"

subsection \<open>\<open>optimize\<close>\<close>

definition optimize :: "string \<Rightarrow> OptimizationOptions \<Rightarrow> string" where
  "optimize markdown options =
     (let opts = mergeOptions defaultOptions options;
          optimized = markdown;
          optimized = (if simplifyStructureOpt opts = Some True then simplifyStructure optimized else optimized);
          optimized = (if removeRedundancyOpt opts = Some True then removeRedundancy optimized else optimized);
          optimized = (if addContextHeadersOpt opts = Some True then addContextHeaders optimized else optimized);
          optimized = optimizeFormatting optimized
      in optimized)"

section \<open>The converter\<close>

subsection \<open>The structural parser\<close>

record RSTDirective =
  d_name :: string
  d_arguments :: "string list"
  d_options :: "(string \<times> string) list"
  d_content :: "string list"

record RSTSection =
  rs_title :: string
  rs_level :: nat
  rs_content :: string
  rs_lineStart :: nat

record ParsedRST =
  p_title :: string
  p_sections :: "RSTSection list"
  p_directives :: "RSTDirective list"
  p_content :: string

text \<open>
  \<^verbatim>\<open>isUnderline\<close>: the trimmed line is not empty, all its characters are its first one, and
  that one is among \<^verbatim>\<open>=-~^"'`.+*#<>_\<close>.
\<close>

definition underlineChars :: string where
  "underlineChars = ''=-~^'' @ [CHR 0x22, CHR 0x27, CHR 0x60] @ ''.+*#<>_''"

definition isUnderline :: "string \<Rightarrow> bool" where
  "isUnderline line =
     (case trim line of
        [] \<Rightarrow> False
      | ch # _ \<Rightarrow> list_all (\<lambda>c. c = ch) (trim line) \<and> List.member underlineChars ch)"

text \<open>
  \<^verbatim>\<open>getHeaderLevel\<close>: the table \<^verbatim>\<open>levels\<close>, and 2 for a character it does not hold
  (\<^verbatim>\<open>levels[char] || 2\<close>).
\<close>

definition levels :: "(char \<times> nat) list" where
  "levels = [(CHR ''='', 1), (CHR ''-'', 2), (CHR ''~'', 3), (CHR ''^'', 4), (CHR 0x22, 5), (CHR 0x27, 6)]"

definition getHeaderLevel :: "char \<Rightarrow> nat" where
  "getHeaderLevel c = (case map_of levels c of Some n \<Rightarrow> n | None \<Rightarrow> 2)"

text \<open>
  The start of a directive line, \<^verbatim>\<open>/^\\.\\. ([a-zA-Z-]+)::/\<close>: a backslash, any character,
  a backslash, any character, a space, a name and two colons (the dot of the pattern, after
  the doubled backslash, stands for any character but a line terminator). The result is the
  name and what follows the colons.
\<close>

definition directiveHead :: "string \<Rightarrow> (string \<times> string) option" where
  "directiveHead line =
     (case line of
        b1 # x # b2 # y # sp # rest \<Rightarrow>
          if b1 = bs \<and> \<not> isLineTerm x \<and> b2 = bs \<and> \<not> isLineTerm y \<and> sp = CHR '' ''
          then (let name = takeWhile isNameChar rest; r = dropWhile isNameChar rest
                in if name \<noteq> [] \<and> prefix ''::'' r then Some (name, drop 2 r) else None)
          else None
      | _ \<Rightarrow> None)"

text \<open>\<^verbatim>\<open>line.match(/^\\.\\. [a-zA-Z-]+::/)\<close>, the test of \<open>parseRST\<close>.\<close>

definition isDirectiveLine :: "string \<Rightarrow> bool" where
  "isDirectiveLine line = (directiveHead line \<noteq> None)"

text \<open>
  \<^verbatim>\<open>directiveLine.match(/^\\.\\. ([a-zA-Z-]+)::\\s*(.*)/)\<close>, the match of \<open>parseDirective\<close>:
  after the colons a backslash and a run of \<open>s\<close> are required; the second group is the rest
  of the line.
\<close>

definition matchDirective :: "string \<Rightarrow> (string \<times> string) option" where
  "matchDirective line =
     (case directiveHead line of
        None \<Rightarrow> None
      | Some (name, r) \<Rightarrow>
          (case r of
             [] \<Rightarrow> None
           | c # r1 \<Rightarrow>
               if c = bs
               then Some (name, takeWhile (\<lambda>c. \<not> isLineTerm c) (dropWhile (\<lambda>c. c = CHR ''s'') r1))
               else None))"

text \<open>
  The head of an option line, \<^verbatim>\<open>/^\\s*:([a-zA-Z-]+):/\<close>: a backslash, a run of \<open>s\<close>, a
  colon, a name and a colon. Then \<^verbatim>\<open>/^\\s*:([a-zA-Z-]+):\\s*(.*)/\<close>, which also needs a
  backslash after the second colon.
\<close>

definition optionHead :: "string \<Rightarrow> (string \<times> string) option" where
  "optionHead line =
     (case line of
        [] \<Rightarrow> None
      | c # r \<Rightarrow>
          if c \<noteq> bs then None
          else (case dropWhile (\<lambda>c. c = CHR ''s'') r of
                  [] \<Rightarrow> None
                | colon # r1 \<Rightarrow>
                    if colon \<noteq> CHR '':'' then None
                    else (let name = takeWhile isNameChar r1; r2 = dropWhile isNameChar r1
                          in if name \<noteq> [] \<and> prefix '':'' r2 then Some (name, drop 1 r2) else None)))"

definition optionMatch :: "string \<Rightarrow> (string \<times> string) option" where
  "optionMatch line =
     (case optionHead line of
        None \<Rightarrow> None
      | Some (name, r) \<Rightarrow>
          (case r of
             [] \<Rightarrow> None
           | c # r1 \<Rightarrow>
               if c = bs
               then Some (name, takeWhile (\<lambda>c. \<not> isLineTerm c) (dropWhile (\<lambda>c. c = CHR ''s'') r1))
               else None))"

text \<open>\<^verbatim>\<open>directive.options[key] = value\<close>: a key keeps its place, a new key goes last.\<close>

fun setOption :: "string \<Rightarrow> string \<Rightarrow> (string \<times> string) list \<Rightarrow> (string \<times> string) list" where
  "setOption k v [] = [(k, v)]"
| "setOption k v ((k', v') # rest) =
     (if k' = k then (k, v) # rest else (k', v') # setOption k v rest)"

text \<open>
  The two inner loops of \<open>parseDirective\<close>. Each runs over the lines from the index \<open>i\<close> on
  and returns the index where it stops.
\<close>

fun optionsLoop :: "string list \<Rightarrow> nat \<Rightarrow> (string \<times> string) list \<Rightarrow> nat \<times> (string \<times> string) list" where
  "optionsLoop [] i options = (i, options)"
| "optionsLoop (line # rest) i options =
     (if optionHead line \<noteq> None
      then optionsLoop rest (i + 1)
             (case optionMatch line of None \<Rightarrow> options | Some (k, v) \<Rightarrow> setOption k v options)
      else (i, options))"

fun contentLoop :: "string list \<Rightarrow> nat \<Rightarrow> string list \<Rightarrow> nat \<times> string list" where
  "contentLoop [] i content = (i, content)"
| "contentLoop (line # rest) i content =
     (if prefix ''   '' line \<or> trim line = []
      then contentLoop rest (i + 1) (content @ [if trim line \<noteq> [] then drop 3 line else []])
      else (i, content))"

definition parseDirective :: "string list \<Rightarrow> nat \<Rightarrow> RSTDirective \<times> nat" where
  "parseDirective lines startIndex =
     (case matchDirective (lines ! startIndex) of
        None \<Rightarrow>
          (\<lparr>d_name = [], d_arguments = [], d_options = [], d_content = []\<rparr>, startIndex + 1)
      | Some (name, arg) \<Rightarrow>
          (case optionsLoop (drop (startIndex + 1) lines) (startIndex + 1) [] of
             (i1, options) \<Rightarrow>
               (let i2 = (if i1 < length lines \<and> trim (lines ! i1) = [] then i1 + 1 else i1)
                in case contentLoop (drop i2 lines) i2 [] of
                     (i3, content) \<Rightarrow>
                       (\<lparr>d_name = name, d_arguments = (if arg \<noteq> [] then [arg] else []),
                         d_options = options, d_content = content\<rparr>, i3))))"

text \<open>
  \<^verbatim>\<open>currentSection.content += line + '\\n'\<close>. The current section is the object pushed
  last on \<open>sections\<close>: it is set exactly when a section is pushed, so it is non-null exactly
  when \<open>sections\<close> is not empty, and appending to it changes the last section of the result.
\<close>

definition appendToCurrent :: "string \<Rightarrow> ParsedRST \<Rightarrow> ParsedRST" where
  "appendToCurrent text result =
     (case rev (p_sections result) of
        [] \<Rightarrow> result
      | currentSection # earlier \<Rightarrow>
          result\<lparr>p_sections :=
            rev earlier @ [currentSection\<lparr>rs_content := rs_content currentSection @ text\<rparr>]\<rparr>)"

text \<open>One iteration of the loop of \<open>parseRST\<close> at the index \<open>i < lines.length\<close>.\<close>

definition parseStep :: "string list \<Rightarrow> ParsedRST \<Rightarrow> nat \<Rightarrow> ParsedRST \<times> nat" where
  "parseStep lines result i =
     (let line = lines ! i
      in if i + 1 < length lines \<and> isUnderline (lines ! (i + 1)) \<and> trim line \<noteq> []
         then (let level = (case lines ! (i + 1) of [] \<Rightarrow> 2 | c # _ \<Rightarrow> getHeaderLevel c)
               in if p_title result = [] \<and> level = 1
                  then (result\<lparr>p_title := trim line\<rparr>, i + 2)
                  else (result\<lparr>p_sections := p_sections result @
                           [\<lparr>rs_title = trim line, rs_level = level, rs_content = [],
                             rs_lineStart = i\<rparr>]\<rparr>, i + 2))
         else if isDirectiveLine line
         then (case parseDirective lines i of
                 (directive, nextIndex) \<Rightarrow>
                   (result\<lparr>p_directives := p_directives result @ [directive]\<rparr>, nextIndex))
         else (appendToCurrent (line @ NL) result, i + 1))"

text \<open>The loop itself; a run that does not end has the value \<open>None\<close>.\<close>

partial_function (option) parseLoop :: "string list \<Rightarrow> ParsedRST \<Rightarrow> nat \<Rightarrow> ParsedRST option" where
  "parseLoop lines result i =
     (if i < length lines
      then (case parseStep lines result i of (result', i') \<Rightarrow> parseLoop lines result' i')
      else Some result)"

declare parseLoop.simps [code]

definition parseRST :: "string \<Rightarrow> ParsedRST option" where
  "parseRST content =
     parseLoop (splitStr NL content)
       \<lparr>p_title = [], p_sections = [], p_directives = [], p_content = content\<rparr> 0"

subsection \<open>The renderer\<close>

record ConversionOptions =
  co_baseUrl :: "string option"
  co_preserveReferences :: "bool option"
  co_includeMetadata :: "bool option"

text \<open>\<^verbatim>\<open>/``([^`]+)``/g\<close>, replaced by the group between single backticks.\<close>

definition inlineCodeAt :: "char option \<Rightarrow> string \<Rightarrow> (string \<times> nat) option" where
  "inlineCodeAt prev s =
     (if prefix [bq, bq] s
      then (let code = takeWhile (\<lambda>c. c \<noteq> bq) (drop 2 s);
                rest = dropWhile (\<lambda>c. c \<noteq> bq) (drop 2 s)
            in if code \<noteq> [] \<and> prefix [bq, bq] rest
               then Some ([bq] @ code @ [bq], length code + 4) else None)
      else None)"

text \<open>
  \<^verbatim>\<open>/::$\\n\\n((?:\\s{4,}.*\\n?)*)/gm\<close>: two colons at the end of a line, followed by the
  four characters \<^verbatim>\<open>\n\n\<close>. The group is the rest of the line when it starts with a
  backslash and four or more \<open>s\<close> (a second round of the group would have to start at the
  line terminator), and is empty otherwise; the callback strips
  \<^verbatim>\<open>/^\\s{4}/gm\<close> from it, trims it and fences it.
\<close>

definition stripIndentAt :: "char option \<Rightarrow> string \<Rightarrow> (string \<times> nat) option" where
  "stripIndentAt prev s =
     (if atLineStart prev \<and> prefix ([bs] @ ''ssss'') s then Some ([], 5) else None)"

definition codeBlockAt :: "char option \<Rightarrow> string \<Rightarrow> (string \<times> nat) option" where
  "codeBlockAt prev s =
     (if prefix ''::'' s \<and> atLineEnd (drop 2 s) \<and> prefix NLNL (drop 2 s)
      then (let r = drop 6 s;
                code = (if prefix ([bs] @ ''ssss'') r then takeWhile (\<lambda>c. \<not> isLineTerm c) r else []);
                cleanCode = trim (replaceAll stripIndentAt None code)
            in Some (NL @ [bq, bq, bq] @ NL @ cleanCode @ NL @ [bq, bq, bq] @ NL, 6 + length code))
      else None)"

text \<open>
  \<^verbatim>\<open>/^\\s*\\*\\s+(.+)$/gm\<close>, replaced by \<^verbatim>\<open>'- $1'\<close>: at the start of a line a backslash,
  a run of \<open>s\<close>, a run of at least one backslash (the last of them is the backslash of
  \<^verbatim>\<open>\\s+\<close>), a run of \<open>s\<close> and the rest of the line.
\<close>

definition bulletAt :: "char option \<Rightarrow> string \<Rightarrow> (string \<times> nat) option" where
  "bulletAt prev s =
     (case s of
        [] \<Rightarrow> None
      | c # r \<Rightarrow>
          if atLineStart prev \<and> c = bs
          then (let r1 = dropWhile (\<lambda>c. c = CHR ''s'') r;
                    b = length (takeWhile (\<lambda>c. c = bs) r1)
                in if b = 0 then None
                   else (case afterBsS (drop (b - 1) r1) of
                           None \<Rightarrow> None
                         | Some (g, rest) \<Rightarrow> Some (''- '' @ g, consumed s rest)))
          else None)"

text \<open>
  \<^verbatim>\<open>/^\\s*(\\d+)\\.\\s+(.+)$/gm\<close>, replaced by \<^verbatim>\<open>'$1. $2'\<close>: at the start of a line a
  backslash, a run of \<open>s\<close>, the first group (a backslash and a run of at least one \<open>d\<close>), a
  backslash, any character, a backslash, a run of \<open>s\<close> and the rest of the line.
\<close>

definition numberedAt :: "char option \<Rightarrow> string \<Rightarrow> (string \<times> nat) option" where
  "numberedAt prev s =
     (case s of
        [] \<Rightarrow> None
      | c # r \<Rightarrow>
          if atLineStart prev \<and> c = bs
          then (case dropWhile (\<lambda>c. c = CHR ''s'') r of
                  b1 # r2 \<Rightarrow>
                    (let ds = takeWhile (\<lambda>c. c = CHR ''d'') r2
                     in if b1 = bs \<and> ds \<noteq> []
                        then (case dropWhile (\<lambda>c. c = CHR ''d'') r2 of
                                b2 # x # r4 \<Rightarrow>
                                  if b2 = bs \<and> \<not> isLineTerm x
                                  then (case afterBsS r4 of
                                          None \<Rightarrow> None
                                        | Some (g, rest) \<Rightarrow>
                                            Some ([bs] @ ds @ ''. '' @ g, consumed s rest))
                                  else None
                              | _ \<Rightarrow> None)
                        else None)
                | _ \<Rightarrow> None)
          else None)"

text \<open>
  A role reference, \<^verbatim>\<open>/:doc:`([^`]+)`/g\<close> or \<^verbatim>\<open>/:ref:`([^`]+)`/g\<close>: the role, a
  backtick, at least one character other than a backtick, and a backtick. The callback gets
  the group.
\<close>

definition roleAt :: "string \<Rightarrow> (string \<Rightarrow> string) \<Rightarrow> char option \<Rightarrow> string \<Rightarrow> (string \<times> nat) option" where
  "roleAt role callback prev s =
     (if prefix (role @ [bq]) s
      then (let r = drop (length role + 1) s;
                ref = takeWhile (\<lambda>c. c \<noteq> bq) r
            in if ref \<noteq> [] \<and> dropWhile (\<lambda>c. c \<noteq> bq) r \<noteq> []
               then Some (callback ref, length role + 1 + length ref + 1) else None)
      else None)"

definition docCallback :: "ConversionOptions \<Rightarrow> string \<Rightarrow> string" where
  "docCallback options ref =
     (if co_preserveReferences options = Some True then ''['' @ ref @ '']('' @ ref @ ''.md)'' else ref)"

text \<open>\<^verbatim>\<open>ref.toLowerCase().replace(/\\s+/g, '-')\<close>.\<close>

definition bsRunAt :: "char option \<Rightarrow> string \<Rightarrow> (string \<times> nat) option" where
  "bsRunAt prev s =
     (case s of
        [] \<Rightarrow> None
      | c # r \<Rightarrow>
          (let ss = takeWhile (\<lambda>c. c = CHR ''s'') r
           in if c = bs \<and> ss \<noteq> [] then Some (''-'', 1 + length ss) else None))"

definition refCallback :: "ConversionOptions \<Rightarrow> string \<Rightarrow> string" where
  "refCallback options ref =
     (if co_preserveReferences options = Some True
      then ''['' @ ref @ ''](#'' @ replaceAll bsRunAt None (map toLower ref) @ '')''
      else ref)"

text \<open>\<^verbatim>\<open>/`([^<]+)<([^>]+)>`_/g\<close>, replaced by \<^verbatim>\<open>'[$1]($2)'\<close>.\<close>

definition externalLinkAt :: "char option \<Rightarrow> string \<Rightarrow> (string \<times> nat) option" where
  "externalLinkAt prev s =
     (case s of
        [] \<Rightarrow> None
      | c # r \<Rightarrow>
          if c = bq
          then (let label = takeWhile (\<lambda>c. c \<noteq> CHR ''<'') r
                in case dropWhile (\<lambda>c. c \<noteq> CHR ''<'') r of
                     [] \<Rightarrow> None
                   | lt # r1 \<Rightarrow>
                       (let url = takeWhile (\<lambda>c. c \<noteq> CHR ''>'') r1;
                            r2 = dropWhile (\<lambda>c. c \<noteq> CHR ''>'') r1
                        in if label \<noteq> [] \<and> url \<noteq> [] \<and> prefix ([CHR ''>'', bq] @ ''_'') r2
                           then Some (''['' @ label @ '']('' @ url @ '')'',
                                      1 + length label + 1 + length url + 3)
                           else None))
          else None)"

text \<open>\<^verbatim>\<open>convertContentToMarkdown\<close>: the replacements in the order of the source, then the trim.\<close>

definition convertContentToMarkdown :: "string \<Rightarrow> ConversionOptions \<Rightarrow> string" where
  "convertContentToMarkdown content options =
     (let markdown = content;
          markdown = replaceAll (emphAt ''**'') None markdown;
          markdown = replaceAll (emphAt ''*'') None markdown;
          markdown = replaceAll inlineCodeAt None markdown;
          markdown = replaceAll codeBlockAt None markdown;
          markdown = replaceAll bulletAt None markdown;
          markdown = replaceAll numberedAt None markdown;
          markdown = replaceAll (roleAt '':doc:'' (docCallback options)) None markdown;
          markdown = replaceAll externalLinkAt None markdown;
          markdown = replaceAll (roleAt '':ref:'' (refCallback options)) None markdown
      in trim markdown)"

text \<open>\<^verbatim>\<open>convertParsedToMarkdown\<close>: the title, then the loop over the sections.\<close>

fun renderSections :: "ParsedRST \<Rightarrow> ConversionOptions \<Rightarrow> RSTSection list \<Rightarrow> string \<Rightarrow> string" where
  "renderSections parsed options [] markdown = markdown"
| "renderSections parsed options (section # rest) markdown =
     (let headerPrefix = replicate (rs_level section + (if p_title parsed \<noteq> [] then 1 else 0)) CHR ''#'';
          markdown = markdown @ headerPrefix @ '' '' @ rs_title section @ NLNL;
          markdown = markdown @ convertContentToMarkdown (rs_content section) options;
          markdown = markdown @ NLNL
      in renderSections parsed options rest markdown)"

definition convertParsedToMarkdown :: "ParsedRST \<Rightarrow> ConversionOptions \<Rightarrow> string" where
  "convertParsedToMarkdown parsed options =
     (let markdown = (if p_title parsed \<noteq> [] then ''# '' @ p_title parsed @ NLNL else [])
      in renderSections parsed options (p_sections parsed) markdown)"

subsection \<open>The pre-processing pass\<close>

text \<open>
  The patterns of \<open>preprocessRST\<close> are written with single backslashes: \<^verbatim>\<open>\s\<close> is white
  space, \<^verbatim>\<open>\S\<close> its complement and \<^verbatim>\<open>\n\<close> a line feed. The texts they put in are written
  with the doubled backslash.

  The body of a block, \<^verbatim>\<open>\s*\n(.*?)(?=\n\S|\n$)\<close> under the flag \<open>s\<close>: a run of white space
  that ends at a line feed, then the shortest text after which comes a line feed followed by
  a character that is not white space, or by the end of the input. \<open>lookahead\<close> is the test
  of the end; \<open>lazyUntil\<close> extends the group one character at a time; \<open>tryNewlines\<close> tries
  the line feeds of the leading white space, the last one first, as the greedy
  \<^verbatim>\<open>\s*\<close> gives them back. The result is the group and the length of the match.
\<close>

definition lookahead :: "string \<Rightarrow> bool" where
  "lookahead r =
     (case r of
        [] \<Rightarrow> False
      | c # r' \<Rightarrow> c = LF \<and> (case r' of [] \<Rightarrow> True | d # _ \<Rightarrow> \<not> isSpace d))"

fun lazyUntil :: "string \<Rightarrow> string \<Rightarrow> string option" where
  "lazyUntil acc [] = None"
| "lazyUntil acc (c # cs) =
     (if lookahead (c # cs) then Some (rev acc) else lazyUntil (c # acc) cs)"

fun tryNewlines :: "string \<Rightarrow> nat list \<Rightarrow> (string \<times> nat) option" where
  "tryNewlines t [] = None"
| "tryNewlines t (j # js) =
     (case lazyUntil [] (drop (j + 1) t) of
        Some content \<Rightarrow> Some (content, j + 1 + length content)
      | None \<Rightarrow> tryNewlines t js)"

definition blockBody :: "string \<Rightarrow> (string \<times> nat) option" where
  "blockBody t =
     tryNewlines t (rev (filter (\<lambda>j. t ! j = LF) [0..<length (takeWhile isSpace t)]))"

text \<open>\<^verbatim>\<open>/\.\. toctree::\s*\n(.*?)(?=\n\S|\n$)/gs\<close> and its callback.\<close>

definition toctreeAt :: "char option \<Rightarrow> string \<Rightarrow> (string \<times> nat) option" where
  "toctreeAt prev s =
     (if prefix ''.. toctree::'' s
      then (case blockBody (drop 12 s) of
              None \<Rightarrow> None
            | Some (content, n) \<Rightarrow>
                Some (''<!-- TOCTREE:'' @ NL @ trim content @ NL @ ''-->'' @ NL, 12 + n))
      else None)"

text \<open>
  \<^verbatim>\<open>/\.\. automodule::\s*(.+)/g\<close> (and \<open>autoclass\<close>): the directive, white space, and at
  least one character up to the next line terminator. When only white space follows up to
  the end of the input, the greedy \<^verbatim>\<open>\s*\<close> gives back characters until the group can start:
  at the last white-space character that is not a line terminator.
\<close>

definition autoAt :: "string \<Rightarrow> string \<Rightarrow> char option \<Rightarrow> string \<Rightarrow> (string \<times> nat) option" where
  "autoAt directive label prev s =
     (if prefix directive s
      then (let t = drop (length directive) s;
                w = takeWhile isSpace t;
                g = takeWhile (\<lambda>c. \<not> isLineTerm c) (dropWhile isSpace t)
            in if g \<noteq> []
               then Some (''<!-- '' @ label @ '': '' @ g @ '' -->'', length directive + length w + length g)
               else (case dropWhile isLineTerm (rev w) of
                       [] \<Rightarrow> None
                     | c # kept \<Rightarrow>
                         Some (''<!-- '' @ label @ '': '' @ [c] @ '' -->'',
                               length directive + length kept + 1)))
      else None)"

text \<open>
  \<^verbatim>\<open>/\.\. (note|warning|tip|important)::\s*\n(.*?)(?=\n\S|\n$)/gs\<close> and its callback: the
  icon of the type, the type in capitals, and the trimmed body in which every
  \<^verbatim>\<open>\n\<close> (written \<^verbatim>\<open>/\\n/g\<close>, so the two characters) is followed by a quote mark.
\<close>

definition emojiOf :: "string \<Rightarrow> string" where
  "emojiOf ty =
     (if ty = ''warning'' then [CHR 0xE2, CHR 0x9A, CHR 0xA0, CHR 0xEF, CHR 0xB8, CHR 0x8F]
      else if ty = ''tip'' then [CHR 0xF0, CHR 0x9F, CHR 0x92, CHR 0xA1]
      else if ty = ''important'' then [CHR 0xE2, CHR 0x9D, CHR 0x97]
      else [CHR 0xE2, CHR 0x84, CHR 0xB9, CHR 0xEF, CHR 0xB8, CHR 0x8F])"

definition quoteNlAt :: "char option \<Rightarrow> string \<Rightarrow> (string \<times> nat) option" where
  "quoteNlAt prev s = (if prefix NL s then Some (NL @ ''> '', 2) else None)"

definition admonitionTypes :: "string list" where
  "admonitionTypes = [''note'', ''warning'', ''tip'', ''important'']"

definition admonitionAt :: "char option \<Rightarrow> string \<Rightarrow> (string \<times> nat) option" where
  "admonitionAt prev s =
     (if prefix ''.. '' s
      then (case filter (\<lambda>ty. prefix (ty @ ''::'') (drop 3 s)) admonitionTypes of
              [] \<Rightarrow> None
            | ty # _ \<Rightarrow>
                (case blockBody (drop (3 + length ty + 2) s) of
                   None \<Rightarrow> None
                 | Some (content, n) \<Rightarrow>
                     Some (''> '' @ emojiOf ty @ '' **'' @ map toUpper ty @ ''**'' @ NL @ ''>'' @ NL
                             @ ''> '' @ replaceAll quoteNlAt None (trim content) @ NL,
                           3 + length ty + 2 + n)))
      else None)"

definition preprocessRST :: "string \<Rightarrow> string" where
  "preprocessRST content =
     (let processed = content;
          processed = replaceAll toctreeAt None processed;
          processed = replaceAll (autoAt ''.. automodule::'' ''AUTO-MODULE'') None processed;
          processed = replaceAll (autoAt ''.. autoclass::'' ''AUTO-CLASS'') None processed;
          processed = replaceAll admonitionAt None processed
      in processed)"

subsection \<open>The post-processing pass and the conversion\<close>

text \<open>
  \<^verbatim>\<open>/[ \\t]+$/gm\<close>: a run of spaces, backslashes and letters \<open>t\<close> that reaches the end of
  its line, removed.
\<close>

definition trailingAt :: "char option \<Rightarrow> string \<Rightarrow> (string \<times> nat) option" where
  "trailingAt prev s =
     (let run = takeWhile (\<lambda>c. c = CHR '' '' \<or> c = bs \<or> c = CHR ''t'') s
      in if run \<noteq> [] \<and> atLineEnd (drop (length run) s) then Some ([], length run) else None)"

definition postProcess :: "string \<Rightarrow> ConversionOptions \<Rightarrow> string" where
  "postProcess markdown options =
     (let processed = markdown;
          processed = replaceAll manyNlAt None processed;
          processed = replaceAll (headerLineAt 6 (\<lambda>line. NL @ line @ NL)) None processed;
          processed = replaceAll trailingAt None processed
      in trim processed)"

text \<open>\<^verbatim>\<open>convertToMarkdown\<close>; the value \<open>None\<close> stands for a parse that does not return.\<close>

definition convertToMarkdown :: "string \<Rightarrow> ConversionOptions \<Rightarrow> string option" where
  "convertToMarkdown content options =
     (let preprocessed = preprocessRST content
      in case parseRST preprocessed of
           None \<Rightarrow> None
         | Some parsed \<Rightarrow> Some (postProcess (convertParsedToMarkdown parsed options) options))"

section \<open>Notions used in the statements and proofs\<close>

text \<open>The number of places where a backslash is followed by \<open>s\<close>: the matches of \<^verbatim>\<open>/\\s+/\<close>.\<close>

fun occ :: "string \<Rightarrow> nat" where
  "occ [] = 0"
| "occ [c] = 0"
| "occ (c # d # r) = (if c = bs \<and> d = CHR ''s'' then 1 else 0) + occ (d # r)"

text \<open>
  A chunk made of a run of whole paragraphs: its content is the trimmed join of a non-empty
  contiguous run \<open>ps\<close> of the paragraphs, its word count is that of the join, and it is over
  the budget only when the run is a single paragraph.
\<close>

definition isRunOf :: "string list \<Rightarrow> int \<Rightarrow> ContentChunk \<Rightarrow> bool" where
  "isRunOf paragraphs maxSize c \<longleftrightarrow>
     (\<exists>ps. ps \<noteq> [] \<and> sublist ps paragraphs \<and> chunk_content c = trim (joinStr NLNL ps) \<and>
           chunk_wordCount c = countWords (joinStr NLNL ps) \<and>
           (chunk_wordCount c \<le> maxSize \<or> length ps = 1))"

text \<open>The pending text of \<open>splitLargeSection\<close>: empty, or the join of the latest paragraphs seen.\<close>

definition pendingRun :: "string list \<Rightarrow> int \<Rightarrow> string \<Rightarrow> bool" where
  "pendingRun seen maxSize cur \<longleftrightarrow>
     cur = [] \<or> (\<exists>ps. ps \<noteq> [] \<and> suffix ps seen \<and> cur = joinStr NLNL ps \<and>
                     (countWords cur \<le> maxSize \<or> length ps = 1))"

definition chunkType :: "ContentChunk \<Rightarrow> mval option" where
  "chunkType c = map_of (chunk_metadata c) ''chunkType''"

text \<open>
  What every emitted chunk is: whole sections packed within the budget, or a run of whole
  paragraphs of a section that is over the budget.
\<close>

definition chunkOk :: "Section list \<Rightarrow> int \<Rightarrow> ContentChunk \<Rightarrow> bool" where
  "chunkOk sections maxSize c \<longleftrightarrow>
     (chunkType c = Some (MStr ''section'') \<and> chunk_wordCount c \<le> maxSize) \<or>
     (chunkType c = Some (MStr ''subsection'') \<and>
      (\<exists>s\<in>set sections. maxSize < countWords (sec_content s) \<and>
          isRunOf (splitStr NLNL (sec_content s)) maxSize c))"

text \<open>The two tests of the loop of \<open>chunkContent\<close>, and the push of the pending chunk.\<close>

definition fitsIn :: "int \<Rightarrow> ContentChunk option \<Rightarrow> Section \<Rightarrow> bool" where
  "fitsIn maxSize cur s =
     (case cur of None \<Rightarrow> False | Some c \<Rightarrow> chunk_wordCount c + countWords (sec_content s) \<le> maxSize)"

definition flush :: "ContentChunk list \<Rightarrow> ContentChunk option \<Rightarrow> ContentChunk list" where
  "flush chunks cur = (case cur of None \<Rightarrow> chunks | Some c \<Rightarrow> chunks @ [c])"



text \<open>What the renderer emits for one section.\<close>

definition sectionMarkdown :: "ParsedRST \<Rightarrow> ConversionOptions \<Rightarrow> RSTSection \<Rightarrow> string" where
  "sectionMarkdown parsed options section =
     replicate (rs_level section + (if p_title parsed \<noteq> [] then 1 else 0)) CHR ''#''
       @ '' '' @ rs_title section @ NLNL
       @ convertContentToMarkdown (rs_content section) options @ NLNL"

text \<open>
  A text in which a pattern matches nowhere, for the two cleanup patterns: the second one
  depends on the character before the position.
\<close>

fun stableNl :: "string \<Rightarrow> bool" where
  "stableNl [] = True"
| "stableNl (c # cs) = (manyNlAt None (c # cs) = None \<and> stableNl cs)"

fun stableClamp :: "char option \<Rightarrow> string \<Rightarrow> bool" where
  "stableClamp p [] = True"
| "stableClamp p (c # cs) = (clampAt p (c # cs) = None \<and> stableClamp (Some c) cs)"





section \<open>Word counts\<close>

lemma occ_append:
  "occ (a @ b) = occ a + occ b + (if a \<noteq> [] \<and> last a = bs \<and> b \<noteq> [] \<and> hd b = CHR ''s'' then 1 else 0)"
proof (induction a rule: occ.induct)
  case 1
  then show ?case by simp
next
  case (2 c)
  then show ?case by (cases b) auto
next
  case (3 c d r)
  then show ?case by auto
qed

lemma occ_dropWhile_s: "occ (dropWhile (\<lambda>d. d = CHR ''s'') cs) = occ cs"
proof (induction cs rule: occ.induct)
  case (3 c d r)
  then show ?case by (auto simp: bs_def)
qed auto

lemma length_splitWords: "length (splitWords t) = Suc (occ t)"
proof (induction t rule: splitWords.induct)
  case 1
  then show ?case by simp
next
  case (2 c cs)
  show ?case
  proof (cases "c = bs \<and> (case cs of [] \<Rightarrow> False | d # _ \<Rightarrow> d = CHR ''s'')")
    case True
    then obtain r where cs: "cs = CHR ''s'' # r" by (auto split: list.splits)
    from True 2(1) have "length (splitWords (dropWhile (\<lambda>d. d = CHR ''s'') cs)) = Suc (occ cs)"
      by (simp add: occ_dropWhile_s)
    with True cs show ?thesis by simp
  next
    case False
    with 2(2) have ih: "length (splitWords cs) = Suc (occ cs)" by simp
    then obtain p ps where sp: "splitWords cs = p # ps" by (cases "splitWords cs") auto
    have o: "occ (c # cs) = occ cs" using False by (cases cs) (auto)
    have "splitWords (c # cs) = (c # p) # ps" using False sp by auto
    with ih sp o show ?thesis by simp
  qed
qed

lemma occ_spaces: "\<forall>c\<in>set w. isSpace c \<Longrightarrow> occ w = 0"
  by (induction w rule: occ.induct) (auto simp: isSpace_def bs_def)

lemma occ_dropWhile_space: "occ (dropWhile isSpace t) = occ t"
proof (induction t rule: occ.induct)
  case (3 c d r)
  then show ?case by (auto simp: isSpace_def bs_def)
qed auto

lemma occ_drop_trailing: "occ (rev (dropWhile isSpace (rev u))) = occ u"
proof -
  let ?x = "rev (dropWhile isSpace (rev u))" and ?w = "rev (takeWhile isSpace (rev u))"
  have u: "u = ?x @ ?w"
    by (metis rev_append rev_rev_ident takeWhile_dropWhile_id)
  have w: "\<forall>c\<in>set ?w. isSpace c" by (auto dest: set_takeWhileD)
  have "occ (?x @ ?w) = occ ?x"
  proof (cases "?w = []")
    case True then show ?thesis by simp
  next
    case False
    then have "hd ?w \<in> set ?w" by (rule hd_in_set)
    with w have "isSpace (hd ?w)" by blast
    then have "hd ?w \<noteq> CHR ''s''" by (auto simp: isSpace_def)
    then show ?thesis using occ_spaces[OF w] by (simp add: occ_append)
  qed
  with u show ?thesis by simp
qed

lemma occ_trim: "occ (trim t) = occ t"
  by (simp add: trim_def occ_drop_trailing occ_dropWhile_space)

lemma countWords_occ: "countWords t = 1 + int (occ t)"
  by (simp add: countWords_def length_splitWords occ_trim)

lemma countWords_pos: "1 \<le> countWords t"
  by (simp add: countWords_occ)

lemma occ_Cons_other: "c \<noteq> bs \<Longrightarrow> occ (c # b) = occ b"
  by (cases b) auto

lemma countWords_join: "countWords (a @ NLNL @ b) = countWords a + countWords b - 1"
  by (simp add: countWords_occ occ_append NLNL_def NL_def occ_Cons_other) (simp add: bs_def occ_Cons_other)

section \<open>Splitting an oversized section\<close>

lemma joinStr_snoc: "ps \<noteq> [] \<Longrightarrow> joinStr sep (ps @ [p]) = joinStr sep ps @ sep @ p"
  by (induction sep ps rule: joinStr.induct) auto

lemma isRunOf_partChunk:
  assumes "ps \<noteq> []" "suffix ps seen" "cur = joinStr NLNL ps" "countWords cur \<le> maxSize \<or> length ps = 1"
  shows "isRunOf (seen @ todo) maxSize (partChunk title cur k)"
proof -
  from assms(2) obtain zs where "seen = zs @ ps" by (auto simp: suffix_def)
  then have "sublist ps (seen @ todo)" by (auto simp: sublist_def)
  with assms show ?thesis unfolding isRunOf_def partChunk_def by auto
qed

lemma isRunOf_title: "isRunOf paragraphs maxSize (c\<lparr>chunk_title := t\<rparr>) = isRunOf paragraphs maxSize c"
  by (simp add: isRunOf_def)

lemma pendingRun_start: "pendingRun (seen @ [p]) maxSize p"
  unfolding pendingRun_def
  by (rule disjI2, rule exI[of _ "[p]"]) simp

lemma pendingRun_extend:
  assumes "pendingRun seen maxSize cur" "cur \<noteq> []" "countWords cur + countWords p \<le> maxSize"
  shows "pendingRun (seen @ [p]) maxSize (cur @ NLNL @ p)"
proof -
  from assms(1,2) obtain ps where ps: "ps \<noteq> []" "suffix ps seen" "cur = joinStr NLNL ps"
    by (auto simp: pendingRun_def)
  have 1: "suffix (ps @ [p]) (seen @ [p])" using ps(2) by (auto simp: suffix_def)
  have 2: "cur @ NLNL @ p = joinStr NLNL (ps @ [p])" using ps by (simp add: joinStr_snoc)
  have 3: "countWords (cur @ NLNL @ p) \<le> maxSize" using assms(3) by (simp add: countWords_join)
  show ?thesis unfolding pendingRun_def using 1 2 3 by (intro disjI2 exI[of _ "ps @ [p]"]) simp
qed

lemma isRunOf_pending:
  assumes "pendingRun seen maxSize cur" "trim cur \<noteq> []"
  shows "isRunOf (seen @ todo) maxSize (partChunk title cur k)"
proof -
  from assms(2) have "cur \<noteq> []" by (auto simp: trim_def)
  with assms(1) obtain ps where "ps \<noteq> []" "suffix ps seen" "cur = joinStr NLNL ps"
    "countWords cur \<le> maxSize \<or> length ps = 1"
    by (auto simp: pendingRun_def)
  then show ?thesis by (rule isRunOf_partChunk)
qed

lemma splitLargeLoop_runs:
  assumes "\<forall>c\<in>set chunks. isRunOf (seen @ todo) maxSize c"
    and "pendingRun seen maxSize cur"
    and "splitLargeLoop title maxSize todo chunks cur idx = (chunks', cur', idx')"
  shows "(\<forall>c\<in>set chunks'. isRunOf (seen @ todo) maxSize c) \<and> pendingRun (seen @ todo) maxSize cur'"
  using assms
proof (induction todo arbitrary: chunks cur idx seen)
  case Nil
  then show ?case by simp
next
  case (Cons p todo)
  have all: "seen @ p # todo = (seen @ [p]) @ todo" by simp
  show ?case
  proof (cases "countWords cur + countWords p \<le> maxSize \<and> cur \<noteq> []")
    case True
    then have step: "splitLargeLoop title maxSize todo chunks (cur @ NLNL @ p) idx = (chunks', cur', idx')"
      using Cons.prems(3) by simp
    have pend: "pendingRun (seen @ [p]) maxSize (cur @ NLNL @ p)"
      using Cons.prems(2) True by (simp add: pendingRun_extend)
    show ?thesis
      using Cons.IH[of chunks "seen @ [p]" "cur @ NLNL @ p" idx] Cons.prems(1) pend step
      unfolding all by blast
  next
    case False
    show ?thesis
    proof (cases "trim cur \<noteq> []")
      case True
      with False have step: "splitLargeLoop title maxSize todo
             (chunks @ [partChunk title cur (idx + 1)]) p (idx + 1) = (chunks', cur', idx')"
        using Cons.prems(3) by auto
      have new: "isRunOf ((seen @ [p]) @ todo) maxSize (partChunk title cur (idx + 1))"
        using isRunOf_pending[OF Cons.prems(2) True, of "p # todo"] by simp
      have "\<forall>c\<in>set (chunks @ [partChunk title cur (idx + 1)]). isRunOf ((seen @ [p]) @ todo) maxSize c"
        using Cons.prems(1) new by auto
      then show ?thesis
        using Cons.IH[of "chunks @ [partChunk title cur (idx + 1)]" "seen @ [p]" p "idx + 1"]
          pendingRun_start[of seen p maxSize] step
        unfolding all by blast
    next
      case nope: False
      with False have step: "splitLargeLoop title maxSize todo chunks p idx = (chunks', cur', idx')"
        using Cons.prems(3) by auto
      show ?thesis
        using Cons.IH[of chunks "seen @ [p]" p idx] Cons.prems(1)
          pendingRun_start[of seen p maxSize] step
        unfolding all by blast
    qed
  qed
qed

lemma splitLargeSection_runs:
  assumes "c \<in> set (splitLargeSection section maxSize)"
  shows "isRunOf (splitStr NLNL (sec_content section)) maxSize c"
proof -
  obtain chunks cur idx where
    loop: "splitLargeLoop (sec_title section) maxSize (splitStr NLNL (sec_content section)) [] [] 0
             = (chunks, cur, idx)"
    by (metis prod_cases3)
  have inv: "(\<forall>c\<in>set chunks. isRunOf ([] @ splitStr NLNL (sec_content section)) maxSize c) \<and>
        pendingRun ([] @ splitStr NLNL (sec_content section)) maxSize cur"
    by (rule splitLargeLoop_runs[OF _ _ loop]) (simp_all add: pendingRun_def)
  show ?thesis
  proof (cases "trim cur \<noteq> []")
    case True
    have last: "isRunOf (splitStr NLNL (sec_content section) @ []) maxSize
                  (partChunk (sec_title section) cur (idx + 1))"
      using inv True by (intro isRunOf_pending) simp_all
    from assms loop True have "c \<in> set chunks \<or>
        c = (partChunk (sec_title section) cur (idx + 1))
               \<lparr>chunk_title := (if idx + 1 > 1
                                 then sec_title section @ '' (Part '' @ showNat (idx + 1) @ '')''
                                 else sec_title section)\<rparr>"
      by (auto simp: splitLargeSection_def)
    then show ?thesis using inv last by (auto simp: isRunOf_title simp del: One_nat_def)
  next
    case False
    with assms loop have "c \<in> set chunks" by (auto simp: splitLargeSection_def)
    with inv show ?thesis by simp
  qed
qed

section \<open>The loop of \<open>chunkContent\<close>\<close>

lemma chunkLoop_fits:
  "chunk_wordCount c0 + countWords (sec_content s) \<le> maxSize \<Longrightarrow>
   chunkLoop maxSize (s # rest) chunks (Some c0) idx =
   chunkLoop maxSize rest chunks
     (Some (c0\<lparr>chunk_content := chunk_content c0 @ NLNL @ sec_content s,
               chunk_wordCount := chunk_wordCount c0 + countWords (sec_content s),
               chunk_metadata := pushSection (sec_title s) (chunk_metadata c0)\<rparr>)) idx"
  by (simp add: Let_def)

lemma chunkLoop_large:
  "\<not> fitsIn maxSize cur s \<Longrightarrow> maxSize < countWords (sec_content s) \<Longrightarrow>
   chunkLoop maxSize (s # rest) chunks cur idx =
   chunkLoop maxSize rest (flush chunks cur @ renumber (sec_title s) idx (splitLargeSection s maxSize))
     None (idx + length (splitLargeSection s maxSize))"
  by (simp add: Let_def fitsIn_def flush_def)

lemma chunkLoop_small:
  "\<not> fitsIn maxSize cur s \<Longrightarrow> \<not> maxSize < countWords (sec_content s) \<Longrightarrow>
   chunkLoop maxSize (s # rest) chunks cur idx =
   chunkLoop maxSize rest (flush chunks cur)
     (Some \<lparr>chunk_id = ''chunk-'' @ showNat (idx + 1),
            chunk_title = (if sec_title s \<noteq> [] then sec_title s
                           else ''Chunk '' @ showNat (idx + 1)),
            chunk_content = sec_content s,
            chunk_metadata = [(''sections'', MList [sec_title s]),
                              (''chunkType'', MStr ''section'')],
            chunk_wordCount = countWords (sec_content s),
            chunk_context = None\<rparr>) (idx + 1)"
  by (simp add: Let_def fitsIn_def flush_def)

lemma chunkType_pushSection: "map_of (pushSection t md) ''chunkType'' = map_of md ''chunkType''"
proof -
  have "map_of (map (\<lambda>(k, v). if k = ''sections'' then (k, w) else (k, v)) md) ''chunkType''
          = map_of md ''chunkType''" for w
    by (induction md) auto
  then show ?thesis by (auto simp: pushSection_def map_add_def split: option.splits mval.splits)
qed

lemma renumber_sub:
  "c \<in> set (renumber parent i subs) \<Longrightarrow>
     \<exists>c'\<in>set subs. chunk_content c = chunk_content c' \<and> chunk_wordCount c = chunk_wordCount c' \<and>
        chunk_title c = chunk_title c' \<and>
        chunk_metadata c = [(''parentSection'', MStr parent), (''chunkType'', MStr ''subsection'')]"
  by (induction parent i subs rule: renumber.induct) auto

lemma chunkOk_renumber:
  assumes "c \<in> set (renumber (sec_title s) i (splitLargeSection s maxSize))"
    and "s \<in> set sections" and "maxSize < countWords (sec_content s)"
  shows "chunkOk sections maxSize c"
proof -
  from renumber_sub[OF assms(1)] obtain c' where c': "c' \<in> set (splitLargeSection s maxSize)"
    "chunk_content c = chunk_content c'" "chunk_wordCount c = chunk_wordCount c'"
    "chunk_metadata c = [(''parentSection'', MStr (sec_title s)), (''chunkType'', MStr ''subsection'')]"
    by blast
  from splitLargeSection_runs[OF c'(1)] c'(2,3)
  have "isRunOf (splitStr NLNL (sec_content s)) maxSize c" by (simp add: isRunOf_def)
  with assms(2,3) c'(4) show ?thesis by (auto simp: chunkOk_def chunkType_def)
qed

lemma chunkLoop_ok:
  assumes "set rest \<subseteq> set sections"
    and "\<forall>c\<in>set chunks. chunkOk sections maxSize c"
    and "\<forall>c. cur = Some c \<longrightarrow> chunkType c = Some (MStr ''section'') \<and> chunk_wordCount c \<le> maxSize"
    and "chunkLoop maxSize rest chunks cur idx = (chunks', cur')"
  shows "(\<forall>c\<in>set chunks'. chunkOk sections maxSize c) \<and>
         (\<forall>c. cur' = Some c \<longrightarrow> chunkType c = Some (MStr ''section'') \<and> chunk_wordCount c \<le> maxSize)"
  using assms
proof (induction rest arbitrary: chunks cur idx)
  case Nil
  then show ?case by simp
next
  case (Cons s rest)
  let ?swc = "countWords (sec_content s)"
  have sub: "set rest \<subseteq> set sections" and s: "s \<in> set sections" using Cons.prems(1) by auto
  show ?case
  proof (cases "fitsIn maxSize cur s")
    case True
    then obtain c0 where c0: "cur = Some c0" "chunk_wordCount c0 + ?swc \<le> maxSize"
      by (auto simp: fitsIn_def split: option.splits)
    let ?c1 = "c0\<lparr>chunk_content := chunk_content c0 @ NLNL @ sec_content s,
                    chunk_wordCount := chunk_wordCount c0 + ?swc,
                    chunk_metadata := pushSection (sec_title s) (chunk_metadata c0)\<rparr>"
    have step: "chunkLoop maxSize rest chunks (Some ?c1) idx = (chunks', cur')"
      using Cons.prems(4) unfolding c0(1) chunkLoop_fits[OF c0(2)] .
    have c1: "\<forall>c. Some ?c1 = Some c \<longrightarrow> chunkType c = Some (MStr ''section'') \<and> chunk_wordCount c \<le> maxSize"
      using Cons.prems(3) c0 by (simp add: chunkType_def chunkType_pushSection)
    show ?thesis
      by (rule Cons.IH[OF sub Cons.prems(2) c1 step])
  next
    case False
    have ok1: "\<forall>c\<in>set (flush chunks cur). chunkOk sections maxSize c"
      using Cons.prems(2,3) by (auto simp: chunkOk_def flush_def split: option.splits)
    show ?thesis
    proof (cases "maxSize < ?swc")
      case True
      let ?subs = "splitLargeSection s maxSize"
      have step: "chunkLoop maxSize rest (flush chunks cur @ renumber (sec_title s) idx ?subs) None
                     (idx + length ?subs) = (chunks', cur')"
        using Cons.prems(4) unfolding chunkLoop_large[OF False True] .
      have ok2: "\<forall>c\<in>set (flush chunks cur @ renumber (sec_title s) idx ?subs). chunkOk sections maxSize c"
        using ok1 chunkOk_renumber[OF _ s True] by auto
      have none: "\<forall>c. (None :: ContentChunk option) = Some c \<longrightarrow>
          chunkType c = Some (MStr ''section'') \<and> chunk_wordCount c \<le> maxSize" by simp
      show ?thesis by (rule Cons.IH[OF sub ok2 none step])
    next
      case small: False
      let ?new = "\<lparr>chunk_id = ''chunk-'' @ showNat (idx + 1),
                    chunk_title = (if sec_title s \<noteq> [] then sec_title s
                                   else ''Chunk '' @ showNat (idx + 1)),
                    chunk_content = sec_content s,
                    chunk_metadata = [(''sections'', MList [sec_title s]),
                                      (''chunkType'', MStr ''section'')],
                    chunk_wordCount = ?swc,
                    chunk_context = None\<rparr>"
      have step: "chunkLoop maxSize rest (flush chunks cur) (Some ?new) (idx + 1) = (chunks', cur')"
        using Cons.prems(4) unfolding chunkLoop_small[OF False small] .
      have new: "\<forall>c. Some ?new = Some c \<longrightarrow> chunkType c = Some (MStr ''section'') \<and> chunk_wordCount c \<le> maxSize"
        using small by (simp add: chunkType_def)
      show ?thesis by (rule Cons.IH[OF sub ok1 new step])
    qed
  qed
qed

lemma addChunkContext_sub:
  "c \<in> set (addChunkContext chunks) \<Longrightarrow>
     \<exists>c'\<in>set chunks. chunk_content c = chunk_content c' \<and> chunk_wordCount c = chunk_wordCount c' \<and>
        chunk_metadata c = chunk_metadata c' \<and> chunk_title c = chunk_title c'"
  by (auto simp: addChunkContext_def)

lemma chunkContent_ok:
  assumes "c \<in> set (chunkContent markdown options)"
  shows "chunkOk (splitByHeaders markdown) (chunkSizeOf options) c"
proof -
  obtain chunks cur where
    loop: "chunkLoop (chunkSizeOf options) (splitByHeaders markdown) [] None 0 = (chunks, cur)"
    by (cases "chunkLoop (chunkSizeOf options) (splitByHeaders markdown) [] None 0")
  have inv: "(\<forall>c\<in>set chunks. chunkOk (splitByHeaders markdown) (chunkSizeOf options) c) \<and>
      (\<forall>c. cur = Some c \<longrightarrow> chunkType c = Some (MStr ''section'') \<and>
              chunk_wordCount c \<le> chunkSizeOf options)"
    by (rule chunkLoop_ok[OF _ _ _ loop]) simp_all
  then have all: "\<forall>c\<in>set (case cur of None \<Rightarrow> chunks | Some c \<Rightarrow> chunks @ [c]).
      chunkOk (splitByHeaders markdown) (chunkSizeOf options) c"
    by (cases cur) (auto simp: chunkOk_def)
  from assms loop obtain c' where c': "c' \<in> set (case cur of None \<Rightarrow> chunks | Some c \<Rightarrow> chunks @ [c])"
    "chunk_content c = chunk_content c'" "chunk_wordCount c = chunk_wordCount c'"
    "chunk_metadata c = chunk_metadata c'"
    by (auto simp: chunkContent_def dest!: addChunkContext_sub)
  from all c'(1) have "chunkOk (splitByHeaders markdown) (chunkSizeOf options) c'" by blast
  with c'(2-4) show ?thesis by (simp add: chunkOk_def chunkType_def isRunOf_def)
qed





































text \<open>
  In the units that the source does split at (words at a backslash followed by \<open>s\<close>, paragraphs
  at \<^verbatim>\<open>\n\n\<close>), the loops keep the budget: with a positive chunk size a chunk is within the
  chunk size unless it is one single paragraph of an oversized section that is itself over the
  chunk size, and every chunk of an oversized section is the trimmed join of a contiguous run of
  whole paragraphs of that section.
\<close>

lemma chunk_size_bound:
  assumes "0 < chunkSizeOf options"
    and "c \<in> set (chunkContent markdown options)"
  shows "(chunk_wordCount c \<le> chunkSizeOf options \<or>
          (\<exists>s\<in>set (splitByHeaders markdown). \<exists>p\<in>set (splitStr NLNL (sec_content s)).
              chunkSizeOf options < countWords (sec_content s) \<and>
              chunkSizeOf options < countWords p \<and>
              chunk_content c = trim p \<and> chunk_wordCount c = countWords p))
       \<and> (map_of (chunk_metadata c) ''chunkType'' = Some (MStr ''subsection'') \<longrightarrow>
          (\<exists>s\<in>set (splitByHeaders markdown). \<exists>ps. ps \<noteq> [] \<and>
              sublist ps (splitStr NLNL (sec_content s)) \<and>
              chunk_content c = trim (joinStr NLNL ps) \<and>
              chunk_wordCount c = countWords (joinStr NLNL ps)))"
proof -
  let ?K = "chunkSizeOf options"
  from chunkContent_ok[OF assms(2)]
  consider (sec) "chunkType c = Some (MStr ''section'')" "chunk_wordCount c \<le> ?K"
    | (sub) s ps where "chunkType c = Some (MStr ''subsection'')" "s \<in> set (splitByHeaders markdown)"
        "?K < countWords (sec_content s)" "ps \<noteq> []" "sublist ps (splitStr NLNL (sec_content s))"
        "chunk_content c = trim (joinStr NLNL ps)" "chunk_wordCount c = countWords (joinStr NLNL ps)"
        "chunk_wordCount c \<le> ?K \<or> length ps = 1"
    unfolding chunkOk_def isRunOf_def by blast
  then show ?thesis
  proof cases
    case sec
    then show ?thesis by (simp add: chunkType_def)
  next
    case sub
    have second: "\<exists>s\<in>set (splitByHeaders markdown). \<exists>ps. ps \<noteq> [] \<and>
              sublist ps (splitStr NLNL (sec_content s)) \<and>
              chunk_content c = trim (joinStr NLNL ps) \<and>
              chunk_wordCount c = countWords (joinStr NLNL ps)"
      using sub by blast
    have first: "chunk_wordCount c \<le> ?K \<or>
          (\<exists>s\<in>set (splitByHeaders markdown). \<exists>p\<in>set (splitStr NLNL (sec_content s)).
              ?K < countWords (sec_content s) \<and> ?K < countWords p \<and>
              chunk_content c = trim p \<and> chunk_wordCount c = countWords p)"
    proof (cases "chunk_wordCount c \<le> ?K")
      case True then show ?thesis by simp
    next
      case False
      with sub(8) have "length ps = 1" by simp
      then obtain p where p: "ps = [p]" by (cases ps) auto
      with sub(5) have "p \<in> set (splitStr NLNL (sec_content s))"
        by (auto simp: sublist_def)
      have "?K < countWords p \<and> chunk_content c = trim p \<and> chunk_wordCount c = countWords p"
        using False sub(6,7) p by simp
      with \<open>p \<in> set (splitStr NLNL (sec_content s))\<close> sub(2,3) show ?thesis by blast
    qed
    from first second show ?thesis by simp
  qed
qed

section \<open>The parser terminates\<close>

lemma optionsLoop_index: "i \<le> fst (optionsLoop ls i options)"
proof (induction ls arbitrary: i options)
  case Nil
  then show ?case by simp
next
  case (Cons line rest)
  have "i + 1 \<le> fst (optionsLoop rest (i + 1) opts)" for opts by (rule Cons.IH)
  then have "i \<le> fst (optionsLoop rest (i + 1) opts)" for opts using le_trans le_add1 by blast
  then show ?case by simp
qed

lemma contentLoop_index: "i \<le> fst (contentLoop ls i content)"
proof (induction ls arbitrary: i content)
  case Nil
  then show ?case by simp
next
  case (Cons line rest)
  have "i + 1 \<le> fst (contentLoop rest (i + 1) c)" for c by (rule Cons.IH)
  then have "i \<le> fst (contentLoop rest (i + 1) c)" for c using le_trans le_add1 by blast
  then show ?case by simp
qed

lemma parseDirective_nextIndex: "startIndex + 1 \<le> snd (parseDirective lines startIndex)"
proof (cases "matchDirective (lines ! startIndex)")
  case None
  then show ?thesis by (simp add: parseDirective_def)
next
  case (Some m)
  obtain name arg where m: "m = (name, arg)" by (cases m)
  obtain i1 options where o: "optionsLoop (drop (startIndex + 1) lines) (startIndex + 1) [] = (i1, options)"
    by (cases "optionsLoop (drop (startIndex + 1) lines) (startIndex + 1) []")
  define i2 where "i2 = (if i1 < length lines \<and> trim (lines ! i1) = [] then i1 + 1 else i1)"
  obtain i3 content where c: "contentLoop (drop i2 lines) i2 [] = (i3, content)"
    by (cases "contentLoop (drop i2 lines) i2 []")
  have 1: "startIndex + 1 \<le> i1" using optionsLoop_index[of "startIndex + 1" "drop (startIndex + 1) lines" "[]"] o by simp
  have 2: "i1 \<le> i2" by (simp add: i2_def)
  have 3: "i2 \<le> i3" using contentLoop_index[of i2 "drop i2 lines" "[]"] c by simp
  have "snd (parseDirective lines startIndex) = i3"
    using Some m o c by (simp add: parseDirective_def i2_def Let_def)
  with 1 2 3 show ?thesis by linarith
qed

lemma parseStep_advances: "i < snd (parseStep lines result i)"
proof -
  have "i < snd (parseDirective lines i)" using parseDirective_nextIndex[of i lines] by simp
  then show ?thesis
    by (auto simp: parseStep_def Let_def split: prod.splits)
qed

lemma parseLoop_returns: "\<exists>r. parseLoop lines result i = Some r"
proof (induction "length lines - i" arbitrary: result i rule: less_induct)
  case less
  show ?case
  proof (cases "i < length lines")
    case False
    then show ?thesis by (subst parseLoop.simps) simp
  next
    case True
    obtain result' i' where st: "parseStep lines result i = (result', i')"
      by (cases "parseStep lines result i")
    with parseStep_advances[of i lines result] have "i < i'" by simp
    with True have "length lines - i' < length lines - i" by simp
    from less[OF this] obtain r where "parseLoop lines result' i' = Some r" by blast
    with True st show ?thesis by (subst parseLoop.simps) simp
  qed
qed

section \<open>Replacements\<close>

lemma replaceAll_no_match:
  "(\<And>p t. suffix t s \<Longrightarrow> t \<noteq> [] \<Longrightarrow> m p t = None) \<Longrightarrow> replaceAll m prev s = s"
proof (induction s arbitrary: prev)
  case Nil
  then show ?case by simp
next
  case (Cons c cs)
  have 1: "m prev (c # cs) = None" by (rule Cons.prems) simp_all
  have 2: "replaceAll m (Some c) cs = cs"
  proof (rule Cons.IH)
    fix p t assume "suffix t cs" "t \<noteq> []"
    then show "m p t = None" using Cons.prems[of t p] by (simp add: suffix_Cons)
  qed
  from 1 2 show ?case by simp
qed













lemma bullet_id: "bs \<notin> set s \<Longrightarrow> replaceAll bulletAt prev s = s"
proof (rule replaceAll_no_match)
  fix p t assume "bs \<notin> set s" "suffix t s" "t \<noteq> []"
  then have "hd t \<noteq> bs" by (metis hd_in_set set_mono_suffix subsetD)
  then show "bulletAt p t = None" using \<open>t \<noteq> []\<close> by (cases t) (auto simp: bulletAt_def)
qed

lemma numbered_id: "bs \<notin> set s \<Longrightarrow> replaceAll numberedAt prev s = s"
proof (rule replaceAll_no_match)
  fix p t assume "bs \<notin> set s" "suffix t s" "t \<noteq> []"
  then have "hd t \<noteq> bs" by (metis hd_in_set set_mono_suffix subsetD)
  then show "numberedAt p t = None" using \<open>t \<noteq> []\<close> by (cases t) (auto simp: numberedAt_def)
qed










lemma renderSections_concat:
  "renderSections parsed options sections markdown
     = markdown @ concat (map (sectionMarkdown parsed options) sections)"
  by (induction sections arbitrary: markdown) (simp_all add: sectionMarkdown_def Let_def)

lemma parseStep_header:
  assumes "i + 1 < length lines" "isUnderline (lines ! (i + 1))" "trim (lines ! i) \<noteq> []"
    "lines ! (i + 1) = c # rest"
  shows "parseStep lines result i =
           (if p_title result = [] \<and> getHeaderLevel c = 1
            then (result\<lparr>p_title := trim (lines ! i)\<rparr>, i + 2)
            else (result\<lparr>p_sections := p_sections result @
                    [\<lparr>rs_title = trim (lines ! i), rs_level = getHeaderLevel c, rs_content = [],
                      rs_lineStart = i\<rparr>]\<rparr>, i + 2))"
proof -
  have cond: "i + 1 < length lines \<and> isUnderline (lines ! (i + 1)) \<and> trim (lines ! i) \<noteq> []"
    using assms(1-3) by simp
  have lvl: "(case lines ! (i + 1) of [] \<Rightarrow> 2 | c # _ \<Rightarrow> getHeaderLevel c) = getHeaderLevel c"
    by (simp only: assms(4) list.case)
  show ?thesis
    unfolding parseStep_def Let_def lvl if_P[OF cond] ..
qed

lemma getHeaderLevel_values:
  "getHeaderLevel CHR ''='' = 1" "getHeaderLevel CHR ''-'' = 2" "getHeaderLevel CHR ''~'' = 3"
  "c \<notin> {CHR ''='', CHR ''-'', CHR ''~'', CHR ''^'', CHR 0x22, CHR 0x27} \<Longrightarrow> getHeaderLevel c = 2"
  by (simp_all add: getHeaderLevel_def levels_def)































section \<open>The two cleanup rewrites are idempotent\<close>

lemma takeWhile_dropWhile_same: "takeWhile P (dropWhile P xs) = []"
  by (induction xs) auto

lemma manyNlAt_prev: "manyNlAt p t = manyNlAt None t"
  by (simp add: manyNlAt_def)

lemma stableNl_id: "stableNl s \<Longrightarrow> replaceAll manyNlAt p s = s"
proof (induction s arbitrary: p)
  case Nil
  then show ?case by simp
next
  case (Cons c cs)
  then have "manyNlAt p (c # cs) = None" using manyNlAt_prev[of p "c # cs"] by simp
  with Cons show ?case by simp
qed

lemma manyNl_keeps_n_run:
  "takeWhile (\<lambda>c. c = CHR ''n'') (replaceAll manyNlAt p cs) = takeWhile (\<lambda>c. c = CHR ''n'') cs"
proof (induction cs arbitrary: p)
  case Nil
  then show ?case by simp
next
  case (Cons d ds)
  show ?case
  proof (cases "manyNlAt p (d # ds)")
    case None
    then show ?thesis using Cons.IH by simp
  next
    case (Some m)
    then have d: "d = bs" by (auto simp: manyNlAt_def Let_def split: if_splits)
    obtain r k where m: "m = (r, k)" by (cases m)
    with Some have r: "r = NLNL" by (auto simp: manyNlAt_def Let_def split: if_splits)
    show ?thesis using Some m r d by (simp add: NLNL_def NL_def bs_def)
  qed
qed

lemma manyNl_stable: "stableNl (replaceAll manyNlAt p x)"
proof (induction manyNlAt p x rule: replaceAll.induct)
  case (1 prev)
  then show ?case by simp
next
  case (2 prev c cs)
  show ?case
  proof (cases "manyNlAt prev (c # cs)")
    case None
    then have none: "manyNlAt None (c # cs) = None" using manyNlAt_prev[of prev "c # cs"] by simp
    have "manyNlAt None (c # replaceAll manyNlAt (Some c) cs) = None"
      using none manyNl_keeps_n_run[of "Some c" cs] by (auto simp: manyNlAt_def Let_def split: if_splits)
    with None 2(1) show ?thesis by simp
  next
    case (Some m)
    obtain r k where m: "m = (r, k)" by (cases m)
    let ?ns = "takeWhile (\<lambda>c. c = CHR ''n'') cs"
    from Some m have c: "c = bs" and len: "3 \<le> length ?ns" and r: "r = NLNL" and k: "k = 1 + length ?ns"
      by (auto simp: manyNlAt_def Let_def split: if_splits)
    let ?rest = "drop (k - 1) cs"
    have rest: "?rest = dropWhile (\<lambda>c. c = CHR ''n'') cs" using k by (simp add: dropWhile_eq_drop)
    let ?y = "replaceAll manyNlAt (Some ((c # cs) ! (k - 1))) ?rest"
    have ih: "stableNl ?y" using 2(2)[OF Some m[symmetric]] by simp
    have eq: "replaceAll manyNlAt prev (c # cs) = NLNL @ ?y" using Some m r by simp
    have "takeWhile (\<lambda>c. c = CHR ''n'') ?y = takeWhile (\<lambda>c. c = CHR ''n'') ?rest"
      by (rule manyNl_keeps_n_run)
    also have "\<dots> = []" unfolding rest by (rule takeWhile_dropWhile_same)
    finally have nrun: "takeWhile (\<lambda>c. c = CHR ''n'') ?y = []" .
    show ?thesis unfolding eq using ih nrun
      by (simp add: NLNL_def NL_def manyNlAt_def bs_def)
  qed
qed

lemma manyNl_idempotent:
  "replaceAll manyNlAt None (replaceAll manyNlAt None x) = replaceAll manyNlAt None x"
  by (rule stableNl_id) (rule manyNl_stable)

lemma stableClamp_id: "stableClamp p s \<Longrightarrow> replaceAll clampAt p s = s"
  by (induction s arbitrary: p) auto

lemma clampAt_inside: "\<not> isLineTerm a \<Longrightarrow> clampAt (Some a) s = None"
  by (simp add: clampAt_def atLineStart_def Let_def)

lemma stableClamp_prev:
  "\<not> isLineTerm a \<Longrightarrow> \<not> isLineTerm b \<Longrightarrow> stableClamp (Some a) s = stableClamp (Some b) s"
  by (cases s) (simp_all add: clampAt_inside)

lemma replaceAll_clamp_prev:
  "\<not> isLineTerm a \<Longrightarrow> \<not> isLineTerm b \<Longrightarrow>
   replaceAll clampAt (Some a) s = replaceAll clampAt (Some b) s"
  by (cases s) (simp_all add: clampAt_inside)

lemma clamp_copies_line:
  "\<not> isLineTerm a \<Longrightarrow>
   \<exists>y. replaceAll clampAt (Some a) cs = takeWhile (\<lambda>c. \<not> isLineTerm c) cs @ y \<and>
       (y = [] \<or> isLineTerm (hd y))"
proof (induction cs arbitrary: a)
  case Nil
  then show ?case by simp
next
  case (Cons d ds)
  have step: "replaceAll clampAt (Some a) (d # ds) = d # replaceAll clampAt (Some d) ds"
    using Cons.prems by (simp add: clampAt_inside)
  show ?case
  proof (cases "isLineTerm d")
    case True
    then show ?thesis unfolding step by simp
  next
    case False
    from Cons.IH[OF False] obtain y where
      "replaceAll clampAt (Some d) ds = takeWhile (\<lambda>c. \<not> isLineTerm c) ds @ y" "y = [] \<or> isLineTerm (hd y)"
      by blast
    then show ?thesis unfolding step using False by simp
  qed
qed

lemma clampAt_line:
  assumes "z = [] \<or> isLineTerm (hd z)"
  shows "clampAt p (v @ z) = clampAt p v"
proof -
  have z: "z = [] \<or> (hd z \<noteq> CHR ''#'' \<and> hd z \<noteq> bs \<and> hd z \<noteq> CHR ''s'' \<and> z \<noteq> [])"
    using assms by (auto simp: isLineTerm_def bs_def)
  have h: "takeWhile (\<lambda>c. c = CHR ''#'') (v @ z) = takeWhile (\<lambda>c. c = CHR ''#'') v"
    using z by (induction v) (auto simp: neq_Nil_conv)
  let ?h = "length (takeWhile (\<lambda>c. c = CHR ''#'') v)"
  have hv: "?h \<le> length v" by (rule length_takeWhile_le)
  have d: "drop ?h (v @ z) = drop ?h v @ z" using hv by simp
  show ?thesis
  proof (cases "drop ?h v")
    case Nil
    then show ?thesis using z d h
      by (cases z) (auto simp: clampAt_def Let_def)
  next
    case (Cons c r)
    have "takeWhile (\<lambda>c. c = CHR ''s'') (r @ z) = takeWhile (\<lambda>c. c = CHR ''s'') r"
      using z by (induction r) (auto simp: neq_Nil_conv)
    then show ?thesis using Cons d h by (simp add: clampAt_def Let_def)
  qed
qed

lemma clampAt_copied:
  assumes "clampAt p (c # cs) = None"
  shows "clampAt p (c # replaceAll clampAt (Some c) cs) = None"
proof (cases "isLineTerm c")
  case True
  then have "c \<noteq> CHR ''#''" by (auto simp: isLineTerm_def)
  then show ?thesis by (simp add: clampAt_def Let_def)
next
  case False
  let ?u = "takeWhile (\<lambda>c. \<not> isLineTerm c) cs" and ?z = "dropWhile (\<lambda>c. \<not> isLineTerm c) cs"
  from clamp_copies_line[OF False, of cs] obtain y where
    y: "replaceAll clampAt (Some c) cs = ?u @ y" "y = [] \<or> isLineTerm (hd y)" by blast
  have z: "?z = [] \<or> isLineTerm (hd ?z)" using hd_dropWhile[of "\<lambda>c. \<not> isLineTerm c" cs] by auto
  have "clampAt p (c # replaceAll clampAt (Some c) cs) = clampAt p ((c # ?u) @ y)" using y by simp
  also have "\<dots> = clampAt p (c # ?u)" by (rule clampAt_line[OF y(2)])
  also have "\<dots> = clampAt p ((c # ?u) @ ?z)" by (rule clampAt_line[OF z, symmetric])
  also have "\<dots> = clampAt p (c # cs)" by simp
  finally show ?thesis using assms by simp
qed

lemma clamp_stable: "stableClamp p (replaceAll clampAt p x)"
proof (induction clampAt p x rule: replaceAll.induct)
  case (1 prev)
  then show ?case by simp
next
  case (2 prev c cs)
  show ?case
  proof (cases "clampAt prev (c # cs)")
    case None
    with 2(1) clampAt_copied[OF None] show ?thesis by simp
  next
    case (Some m)
    obtain r k where m: "m = (r, k)" by (cases m)
    let ?x = "c # cs"
    let ?h = "length (takeWhile (\<lambda>c. c = CHR ''#'') ?x)"
    from Some m have r: "r = ''#### ''" by (auto simp: clampAt_def Let_def split: if_splits list.splits)
    from Some m have k1: "0 < k" by (auto simp: clampAt_def Let_def split: if_splits list.splits)
    let ?last = "?x ! (k - 1)"
    let ?y = "replaceAll clampAt (Some ?last) (drop (k - 1) cs)"
    have ih: "stableClamp (Some ?last) ?y" using 2(2)[OF Some m[symmetric]] by simp
    have last: "\<not> isLineTerm ?last"
    proof -
      from Some m obtain d r' where dr: "drop ?h ?x = d # r'" "d = bs"
        "takeWhile (\<lambda>c. c = CHR ''s'') r' \<noteq> []" "k = ?h + 1 + length (takeWhile (\<lambda>c. c = CHR ''s'') r')"
        by (auto simp: clampAt_def Let_def split: if_splits list.splits)
      let ?ss = "takeWhile (\<lambda>c. c = CHR ''s'') r'"
      have x: "?x = take ?h ?x @ d # r'" using dr(1) by (metis append_take_drop_id)
      have lh: "length (take ?h ?x) = ?h"
        by (metis length_take min.absorb2 length_takeWhile_le)
      have "?x ! (k - 1) = (d # r') ! (k - 1 - ?h)"
        using dr(4) lh by (subst x) (simp add: nth_append)
      also have "\<dots> = r' ! (length ?ss - 1)" using dr(3,4) by (cases ?ss) auto
      also have "\<dots> = ?ss ! (length ?ss - 1)" using dr(3)
        by (metis diff_less length_greater_0_conv less_numeral_extra(1) takeWhile_nth)
      also have "\<dots> \<in> set ?ss" using dr(3) by simp
      finally have "?x ! (k - 1) \<in> set ?ss" .
      then have "?x ! (k - 1) = CHR ''s''" by (meson set_takeWhileD)
      then show ?thesis by (simp add: isLineTerm_def)
    qed
    have sp: "stableClamp (Some CHR '' '') ?y"
      using ih stableClamp_prev[OF last, of "CHR '' ''" ?y] by (simp add: isLineTerm_def)
    have eq: "replaceAll clampAt prev ?x = ''#### '' @ ?y" using Some m r by simp
    have head: "clampAt prev (''#### '' @ ?y) = None" by (simp add: clampAt_def Let_def)
    show ?thesis unfolding eq using head sp
      by (simp add: clampAt_inside isLineTerm_def)
  qed
qed

lemma clamp_idempotent:
  "replaceAll clampAt None (replaceAll clampAt None x) = replaceAll clampAt None x"
  by (rule stableClamp_id) (rule clamp_stable)

text \<open>
  The first rewrite of \<open>removeRedundancy\<close>, \<^verbatim>\<open>/\\n{3,}/g\<close> to \<^verbatim>\<open>'\\n\\n'\<close>, and the first
  rewrite of \<open>simplifyStructure\<close>, \<^verbatim>\<open>/^#{5,}\\s+/gm\<close> to \<^verbatim>\<open>'#### '\<close>, are idempotent as
  the source writes them: applying either twice gives what applying it once gives.
\<close>

lemma cleanup_rewrites_idempotent:
  "replaceAll manyNlAt None (replaceAll manyNlAt None x) = replaceAll manyNlAt None x
   \<and> replaceAll clampAt None (replaceAll clampAt None x) = replaceAll clampAt None x"
  using manyNl_idempotent clamp_idempotent by simp

section \<open>The claims about the chunker\<close>

text \<open>
  Claim C1 on the code. The chunker counts words with \<^verbatim>\<open>text.trim().split(/\\s+/)\<close> and cuts an
  oversized section into paragraphs with \<^verbatim>\<open>section.content.split('\\n\\n')\<close>. Both are written
  with a doubled backslash, so a word ends at a backslash followed by \<open>s\<close> and a paragraph at the
  four characters \<^verbatim>\<open>\n\n\<close>; white space and blank lines separate nothing. In the first input
  below two paragraphs of two words each (in the code's own count), separated by a blank line,
  come back as one chunk of word count 3 for a chunk size of 2: the chunk is over the budget and
  no paragraph of it is. In the second, ordinary Markdown of two paragraphs of three words comes
  back as one chunk whose word count is 1, whatever the chunk size.
\<close>

theorem chunk_size_bound_failing_input:
  "chunkContent [CHR ''a'', bs, CHR ''s'', CHR ''b'', LF, LF, CHR ''c'', bs, CHR ''s'', CHR ''d'']
       (defaultOptions\<lparr>chunkSize := Some 2\<rparr>)
     = [\<lparr>chunk_id = ''chunk-1'', chunk_title = ''Introduction'',
         chunk_content = [CHR ''a'', bs, CHR ''s'', CHR ''b'', LF, LF, CHR ''c'', bs, CHR ''s'', CHR ''d''],
         chunk_metadata = [(''parentSection'', MStr ''Introduction''), (''chunkType'', MStr ''subsection'')],
         chunk_wordCount = 3, chunk_context = Some []\<rparr>]
   \<and> countWords [CHR ''a'', bs, CHR ''s'', CHR ''b''] = 2
   \<and> countWords [CHR ''c'', bs, CHR ''s'', CHR ''d''] = 2
   \<and> chunkContent (''one two three'' @ [LF, LF] @ ''four five six'') (defaultOptions\<lparr>chunkSize := Some 2\<rparr>)
     = [\<lparr>chunk_id = ''chunk-1'', chunk_title = ''Introduction'',
         chunk_content = ''one two three'' @ [LF, LF] @ ''four five six'',
         chunk_metadata = [(''sections'', MList [''Introduction'']), (''chunkType'', MStr ''section'')],
         chunk_wordCount = 1, chunk_context = Some []\<rparr>]"
  by code_simp




text \<open>
  Claim C7, as it stands, fails: the empty string is one empty line, which opens the implicit
  section \<open>Introduction\<close>, and the result has one chunk.
\<close>

theorem chunkContent_empty_counterexample:
  "chunkContent [] defaultOptions \<noteq> [] \<and> length (chunkContent [] defaultOptions) = 1"
  by code_simp

text \<open>
  Claim C7, amended. For the empty input string and every chunk size of at least 1,
  \<open>chunkContent\<close> returns (the model has no failing branch: nothing in the function throws on a
  string) exactly one chunk: \<open>chunk-1\<close>, titled \<open>Introduction\<close>, with empty content, word count
  1 and an empty context.
\<close>

theorem chunkContent_empty_input: "1 \<le> chunkSizeOf options \<Longrightarrow> chunkContent [] options =
  [\<lparr>chunk_id = ''chunk-1'', chunk_title = ''Introduction'', chunk_content = [],
    chunk_metadata = [(''sections'', MList [''Introduction'']), (''chunkType'', MStr ''section'')],
    chunk_wordCount = 1, chunk_context = Some []\<rparr>]"
  by (simp add: chunkContent_def splitByHeaders_def splitStr_def matchHeader_def countWords_def trim_def
       addChunkContext_def chunkContextAt_def showNat.simps Let_def)

theorem chunkContent_empty_input_witness:
  "1 \<le> chunkSizeOf defaultOptions \<and> chunkContent [] defaultOptions =
  [\<lparr>chunk_id = ''chunk-1'', chunk_title = ''Introduction'', chunk_content = [],
    chunk_metadata = [(''sections'', MList [''Introduction'']), (''chunkType'', MStr ''section'')],
    chunk_wordCount = 1, chunk_context = Some []\<rparr>]"
proof -
  have h: "1 \<le> chunkSizeOf defaultOptions" by code_simp
  from chunkContent_empty_input[OF h] h show ?thesis by simp
qed

section \<open>The claims about the converter\<close>




text \<open>
  Claim C3 on the code. The table of \<open>getHeaderLevel\<close> does give 1 for \<open>=\<close>, 2 for \<open>-\<close>, 3 for
  \<open>~\<close> and 2 for a character it does not hold. But \<open>parseRST\<close> looks up \<^verbatim>\<open>nextLine[0]\<close>, the
  first character of the line as it stands, while \<open>isUnderline\<close> tests the trimmed line. For an
  underline that is indented the character looked up is the space, which the table does not
  hold: \<open>Title\<close> over \<open> ~~~\<close> is a section of level 2, not 3, and \<open>Title\<close> over \<open> ===\<close> is a section
  of level 2, not the document title of level 1. The same lines without the indentation give
  level 3 and the title.
\<close>

theorem underline_level_first_character:
  "parseRST (''Title'' @ NL @ '' ~~~'')
     = Some \<lparr>p_title = [],
             p_sections = [\<lparr>rs_title = ''Title'', rs_level = 2, rs_content = [], rs_lineStart = 0\<rparr>],
             p_directives = [], p_content = ''Title'' @ NL @ '' ~~~''\<rparr>
   \<and> parseRST (''Title'' @ NL @ ''~~~'')
     = Some \<lparr>p_title = [],
             p_sections = [\<lparr>rs_title = ''Title'', rs_level = 3, rs_content = [], rs_lineStart = 0\<rparr>],
             p_directives = [], p_content = ''Title'' @ NL @ ''~~~''\<rparr>
   \<and> parseRST (''Title'' @ NL @ '' ==='')
     = Some \<lparr>p_title = [],
             p_sections = [\<lparr>rs_title = ''Title'', rs_level = 2, rs_content = [], rs_lineStart = 0\<rparr>],
             p_directives = [], p_content = ''Title'' @ NL @ '' ===''\<rparr>
   \<and> parseRST (''Title'' @ NL @ ''==='')
     = Some \<lparr>p_title = ''Title'', p_sections = [], p_directives = [], p_content = ''Title'' @ NL @ ''===''\<rparr>"
  by code_simp

text \<open>
  Claim C4, as it stands, fails: the renderer does not clamp the depth. A section of level 6
  (underlined with apostrophes) in a document with a title gets a heading of seven \<open>#\<close>.
\<close>

theorem heading_depth_counterexample:
  "parseRST (''T'' @ NL @ ''==='' @ NL @ ''S'' @ NL @ [CHR 0x27, CHR 0x27, CHR 0x27])
     = Some \<lparr>p_title = ''T'',
             p_sections = [\<lparr>rs_title = ''S'', rs_level = 6, rs_content = [], rs_lineStart = 2\<rparr>],
             p_directives = [],
             p_content = ''T'' @ NL @ ''==='' @ NL @ ''S'' @ NL @ [CHR 0x27, CHR 0x27, CHR 0x27]\<rparr>
   \<and> convertParsedToMarkdown
        \<lparr>p_title = ''T'',
         p_sections = [\<lparr>rs_title = ''S'', rs_level = 6, rs_content = [], rs_lineStart = 2\<rparr>],
         p_directives = [],
         p_content = ''T'' @ NL @ ''==='' @ NL @ ''S'' @ NL @ [CHR 0x27, CHR 0x27, CHR 0x27]\<rparr>
        \<lparr>co_baseUrl = None, co_preserveReferences = None, co_includeMetadata = None\<rparr>
     = ''# T'' @ NLNL @ ''####### S'' @ NLNL @ NLNL"
  by code_simp

text \<open>
  Claim C4, amended. The renderer emits the title, when there is one, as a level-1 heading,
  and then for each section in order a heading of \<open>section.level\<close> characters \<open>#\<close>, one more
  when the document has a title, followed by the converted content; the depth is not clamped.
\<close>

theorem heading_depth_not_clamped:
  "convertParsedToMarkdown parsed options
     = (if p_title parsed \<noteq> [] then ''# '' @ p_title parsed @ NLNL else [])
       @ concat (map (\<lambda>section.
            replicate (rs_level section + (if p_title parsed \<noteq> [] then 1 else 0)) CHR ''#''
              @ '' '' @ rs_title section @ NLNL
              @ convertContentToMarkdown (rs_content section) options @ NLNL)
           (p_sections parsed))"
proof -
  have "sectionMarkdown parsed options = (\<lambda>section.
            replicate (rs_level section + (if p_title parsed \<noteq> [] then 1 else 0)) CHR ''#''
              @ '' '' @ rs_title section @ NLNL
              @ convertContentToMarkdown (rs_content section) options @ NLNL)"
    by (rule ext) (simp add: sectionMarkdown_def)
  then show ?thesis
    by (simp add: convertParsedToMarkdown_def Let_def renderSections_concat)
qed

text \<open>
  Claim C5 on the code: the lines before the first header are not collected. \<open>parseRST\<close>
  appends a line only to the current section, and there is none before the first header, so
  these lines appear in no section and no section \<open>Introduction\<close> is made.
\<close>

theorem leading_lines_dropped:
  "parseRST (''Some leading text'' @ NL @ ''Section'' @ NL @ ''-------'' @ NL @ ''body'')
     = Some \<lparr>p_title = [],
             p_sections = [\<lparr>rs_title = ''Section'', rs_level = 2, rs_content = ''body'' @ NL, rs_lineStart = 1\<rparr>],
             p_directives = [],
             p_content = ''Some leading text'' @ NL @ ''Section'' @ NL @ ''-------'' @ NL @ ''body''\<rparr>
   \<and> parseRST ''Some leading text''
     = Some \<lparr>p_title = [], p_sections = [], p_directives = [], p_content = ''Some leading text''\<rparr>"
  by code_simp

text \<open>
  Claim C10. The loop of \<open>parseRST\<close> ends on every input: it returns a document for every
  content, and from every state; every iteration moves the index forward; and
  \<open>parseDirective\<close> returns a next index of at least \<open>startIndex + 1\<close>.
\<close>

theorem parseRST_terminates:
  "(\<exists>r. parseRST content = Some r)
   \<and> (\<forall>lines result i. \<exists>r. parseLoop lines result i = Some r)
   \<and> (\<forall>lines result i. i < snd (parseStep lines result i))
   \<and> (\<forall>lines startIndex. startIndex + 1 \<le> snd (parseDirective lines startIndex))"
  using parseLoop_returns parseStep_advances parseDirective_nextIndex
  by (simp add: parseRST_def)

section \<open>The claims about the optimizer and the whole conversion\<close>

text \<open>
  Claim C8 on the code. The cleanup of \<open>removeRedundancy\<close> has, under the comment
  \<^verbatim>\<open>Remove redundant emphasis\<close>, the rewrite of \<^verbatim>\<open>/\\*\\*\\*([^*]+)\\*\\*\\*/g\<close> to
  \<^verbatim>\<open>'**$1**'\<close>. With the doubled backslashes the pattern asks for no asterisk at all: it
  matches every run of characters other than \<open>*\<close> and wraps it in two asterisks, once more at
  every call. So the cleanup is not idempotent, and neither is \<open>optimize\<close>, on a text as plain
  as \<open>abc\<close>.
\<close>

theorem emphasis_rewrite_not_idempotent:
  "removeRedundancy ''abc'' = ''**abc**''
   \<and> removeRedundancy (removeRedundancy ''abc'') = ''****abc****''
   \<and> optimize ''abc'' defaultOptions = ''**abc**''
   \<and> optimize (optimize ''abc'' defaultOptions) defaultOptions = ''****abc****''
   \<and> optimize (optimize ''abc'' defaultOptions) defaultOptions \<noteq> optimize ''abc'' defaultOptions"
  by code_simp

text \<open>
  Claim C9 on the code. The pre-processing pass does rewrite the admonition, before the
  structural parsing, into a quote with the info mark. But the quote has a line that is a
  lone \<open>>\<close>, and \<open>isUnderline\<close> takes it for the underline of a header: the line with the
  mark becomes the title of a section of level 2, and the output holds it as a heading,
  \<open>## > ... **NOTE**\<close>, not as a quote line. (The lines of the quote are separated by the
  two characters \<^verbatim>\<open>\n\<close>, as everywhere in the source.)
\<close>

theorem note_admonition_output:
  "preprocessRST (''.. note::'' @ [LF] @ ''   Remember this.'' @ [LF])
     = ''> '' @ emojiOf ''note'' @ '' **NOTE**'' @ NL @ ''>'' @ NL @ ''> Remember this.'' @ NL @ [LF]
   \<and> convertToMarkdown (''.. note::'' @ [LF] @ ''   Remember this.'' @ [LF])
        \<lparr>co_baseUrl = None, co_preserveReferences = None, co_includeMetadata = None\<rparr>
     = Some (''## > '' @ emojiOf ''note'' @ '' **NOTE**'' @ NLNL
             @ ''***> Remember this.'' @ NL @ [LF] @ NL @ ''***'' @ NLNL)"
  by code_simp

end
